theory Spec2Isabelle
  imports Complex_Main
begin

section \<open>Service control over a shared key-value store\<close>

text \<open>
  A shallow embedding of \<^verbatim>\<open>src/service-control.ts\<close>: the controller returned by
  \<^verbatim>\<open>createServiceController\<close>, with its six operations \<^verbatim>\<open>register\<close>,
  \<^verbatim>\<open>heartbeat\<close>, \<^verbatim>\<open>waitIfPaused\<close>, \<^verbatim>\<open>shouldStop\<close>, \<^verbatim>\<open>shutdown\<close> and
  \<^verbatim>\<open>getState\<close>, and the \<^verbatim>\<open>applySignal\<close> they share.

  Every operation of the source is an \<^verbatim>\<open>async\<close> function over a Redis connection.
  Here it is a function from the world before the call to a result and the world after
  it; a rejected promise (a thrown exception) is the result \<open>Inl\<close>, and the world
  it returns keeps the writes made before the failure. One controller runs
  sequentially; other parties act on the store only while \<^verbatim>\<open>sleep\<close> suspends it.
\<close>

subsection \<open>JSON values and JavaScript objects\<close>

text \<open>
  What \<^verbatim>\<open>JSON.parse\<close> returns. An object is the list of its properties in
  insertion order. Numbers are only carried around, never computed with.
\<close>

datatype json =
    JNull
  | JBool bool
  | JNum real
  | JStr string
  | JArr "json list"
  | JObj "(string \<times> json) list"

text \<open>Property lookup \<^verbatim>\<open>o[k]\<close> on an object: \<open>None\<close> is \<^verbatim>\<open>undefined\<close>.\<close>

definition field :: "(string \<times> json) list \<Rightarrow> string \<Rightarrow> json option" where
  "field obj k = map_of obj k"

text \<open>
  Defining a property in an object literal: an existing property keeps its place and
  takes the new value, a new one goes to the end.
\<close>

fun obj_set :: "(string \<times> json) list \<Rightarrow> string \<times> json \<Rightarrow> (string \<times> json) list" where
  "obj_set [] kv = [kv]"
| "obj_set ((k', v') # rest) kv =
     (if k' = fst kv then (k', snd kv) # rest else (k', v') # obj_set rest kv)"

text \<open>Decimal text of a natural number, as a template string renders it.\<close>

fun decimal :: "nat \<Rightarrow> string" where
  "decimal n =
     (if n < 10 then [''0123456789'' ! n]
      else decimal (n div 10) @ [''0123456789'' ! (n mod 10)])"

declare decimal.simps [simp del]

text \<open>
  The own enumerable properties that \<^verbatim>\<open>{...payload}\<close> copies: those of an object,
  the indexed elements of an array, the indexed characters of a string, and nothing
  for \<^verbatim>\<open>null\<close>, a number or a boolean.
\<close>

definition spread :: "json \<Rightarrow> (string \<times> json) list" where
  "spread payload =
     (case payload of
        JObj props \<Rightarrow> props
      | JArr xs \<Rightarrow> zip (map decimal [0..<length xs]) xs
      | JStr s \<Rightarrow> zip (map decimal [0..<length s]) (map (\<lambda>c. JStr [c]) s)
      | _ \<Rightarrow> [])"

subsection \<open>Types of the package\<close>

datatype ServiceState = Running | Paused | Stopping

text \<open>The string a \<^verbatim>\<open>ServiceState\<close> is in the source.\<close>

fun state_text :: "ServiceState \<Rightarrow> string" where
  "state_text Running = ''running''"
| "state_text Paused = ''paused''"
| "state_text Stopping = ''stopping''"

text \<open>The return type of \<^verbatim>\<open>applySignal\<close>: "none" | "pause" | "resume" | "stop".\<close>

datatype signal_kind = SigNone | SigPause | SigResume | SigStop

record ServiceControlConfig =
  cfg_prefix :: "string option"
  cfg_heartbeatTtl :: "int option"
  cfg_pollMs :: "int option"

text \<open>\<^verbatim>\<open>Required<ServiceControlConfig>\<close>: every field present.\<close>

record FinalConfig =
  prefix :: string
  heartbeatTtl :: int
  pollMs :: int

definition DEFAULT_CONFIG :: FinalConfig where
  "DEFAULT_CONFIG =
     \<lparr>prefix = ''controlService:control'', heartbeatTtl = 30, pollMs = 1000\<rparr>"

text \<open>
  \<^verbatim>\<open>{ ...DEFAULT_CONFIG, ...config }\<close> with \<^verbatim>\<open>config = {}\<close> when the option is
  missing: a field that is given replaces the default.
\<close>

definition mergeConfig :: "ServiceControlConfig option \<Rightarrow> FinalConfig" where
  "mergeConfig config =
     (case config of
        None \<Rightarrow> DEFAULT_CONFIG
      | Some c \<Rightarrow>
          \<lparr>prefix = (case cfg_prefix c of None \<Rightarrow> prefix DEFAULT_CONFIG | Some p \<Rightarrow> p),
           heartbeatTtl =
             (case cfg_heartbeatTtl c of None \<Rightarrow> heartbeatTtl DEFAULT_CONFIG | Some t \<Rightarrow> t),
           pollMs = (case cfg_pollMs c of None \<Rightarrow> pollMs DEFAULT_CONFIG | Some p \<Rightarrow> p)\<rparr>)"

text \<open>
  \<^verbatim>\<open>ServiceControllerOptions\<close> without its two capabilities \<^verbatim>\<open>redis\<close> and
  \<^verbatim>\<open>logger\<close>, which are part of the world below.
\<close>

record ServiceControllerOptions =
  serviceName :: string
  appType :: string
  tags :: "string list option"
  meta :: "(string \<times> json) list option"
  config :: "ServiceControlConfig option"

text \<open>
  What the closure of \<^verbatim>\<open>createServiceController\<close> captures besides its options:
  \<^verbatim>\<open>os.hostname()\<close>, \<^verbatim>\<open>process.pid\<close>, the six base-36 characters drawn from
  \<^verbatim>\<open>Math.random()\<close>, and the platform's \<^verbatim>\<open>JSON.parse\<close> (\<open>None\<close> when it
  throws) and \<^verbatim>\<open>JSON.stringify\<close>, which are taken as given.
\<close>

record env =
  options :: ServiceControllerOptions
  hostname :: string
  pid :: nat
  random_suffix :: string
  JSON_parse :: "string \<Rightarrow> json option"
  JSON_stringify :: "json \<Rightarrow> string"

definition finalConfig :: "env \<Rightarrow> FinalConfig" where
  "finalConfig e = mergeConfig (config (options e))"

definition instanceId :: "env \<Rightarrow> string" where
  "instanceId e = hostname e @ ''-'' @ decimal (pid e) @ ''-'' @ random_suffix e"

subsection \<open>Key schema\<close>

definition servicesSetKey :: "env \<Rightarrow> string" where
  "servicesSetKey e = prefix (finalConfig e) @ '':services''"

definition instancesSetKey :: "env \<Rightarrow> string" where
  "instancesSetKey e =
     prefix (finalConfig e) @ '':service:'' @ serviceName (options e) @ '':instances''"

definition instanceKey :: "env \<Rightarrow> string" where
  "instanceKey e =
     prefix (finalConfig e) @ '':service:'' @ serviceName (options e) @ '':instance:''
       @ instanceId e"

definition stateKey :: "env \<Rightarrow> string" where
  "stateKey e = prefix (finalConfig e) @ '':state:'' @ serviceName (options e)"

definition signalKey :: "env \<Rightarrow> string" where
  "signalKey e = prefix (finalConfig e) @ '':signal:'' @ serviceName (options e)"

subsection \<open>The store\<close>

text \<open>
  One Redis keyspace: a key holds a string, with its time to live when it has one, or
  a set of strings. Expiry itself needs the passing of time and is not modelled: the
  time to live is kept as written.
\<close>

datatype entry = Str string "int option" | Members "string set"

type_synonym keyspace = "string \<Rightarrow> entry option"

text \<open>
  Failures of an operation: \<open>StoreError\<close> is a store call that fails for a reason
  outside the keyspace (connection lost, timeout); \<open>ReplyError\<close> is the error reply
  of Redis to a command it refuses (a key of the wrong type, an expiry that is not
  positive); \<open>TypeError\<close> is the JavaScript exception of reading a property of
  \<^verbatim>\<open>null\<close>.
\<close>

datatype failure = StoreError | ReplyError | TypeError

definition GET :: "string \<Rightarrow> keyspace \<Rightarrow> failure + string option \<times> keyspace" where
  "GET k s =
     (case s k of
        None \<Rightarrow> Inr (None, s)
      | Some (Str v ttl) \<Rightarrow> Inr (Some v, s)
      | Some (Members ms) \<Rightarrow> Inl ReplyError)"

text \<open>\<^verbatim>\<open>SET key value\<close> replaces a value of any type and drops its time to live.\<close>

definition SET :: "string \<Rightarrow> string \<Rightarrow> keyspace \<Rightarrow> failure + unit \<times> keyspace" where
  "SET k v s = Inr ((), s(k \<mapsto> Str v None))"

definition SET_EX :: "string \<Rightarrow> string \<Rightarrow> int \<Rightarrow> keyspace \<Rightarrow> failure + unit \<times> keyspace" where
  "SET_EX k v ttl s = (if ttl \<le> 0 then Inl ReplyError else Inr ((), s(k \<mapsto> Str v (Some ttl))))"

definition DEL :: "string \<Rightarrow> keyspace \<Rightarrow> failure + unit \<times> keyspace" where
  "DEL k s = Inr ((), s(k := None))"

definition SADD :: "string \<Rightarrow> string \<Rightarrow> keyspace \<Rightarrow> failure + unit \<times> keyspace" where
  "SADD k m s =
     (case s k of
        None \<Rightarrow> Inr ((), s(k \<mapsto> Members {m}))
      | Some (Members ms) \<Rightarrow> Inr ((), s(k \<mapsto> Members (insert m ms)))
      | Some (Str v ttl) \<Rightarrow> Inl ReplyError)"

text \<open>A set that loses its last member is removed with its key.\<close>

definition SREM :: "string \<Rightarrow> string \<Rightarrow> keyspace \<Rightarrow> failure + unit \<times> keyspace" where
  "SREM k m s =
     (case s k of
        None \<Rightarrow> Inr ((), s)
      | Some (Members ms) \<Rightarrow>
          Inr ((), if ms - {m} = {} then s(k := None) else s(k \<mapsto> Members (ms - {m})))
      | Some (Str v ttl) \<Rightarrow> Inl ReplyError)"

subsection \<open>The world of one controller\<close>

datatype level = Debug | Info | Warn | Error

text \<open>A write made by another party: an operator, or another instance.\<close>

datatype ext_action = ExtSet string string | ExtDel string

fun apply_ext :: "keyspace \<Rightarrow> ext_action \<Rightarrow> keyspace" where
  "apply_ext s (ExtSet k v) = s(k \<mapsto> Str v None)"
| "apply_ext s (ExtDel k) = s(k := None)"

text \<open>
  \<^item> \<open>store\<close>: the keyspace;
  \<^item> \<open>faults\<close>: for each coming store call, whether it fails outside the keyspace
    (an exhausted list means no further fault);
  \<^item> \<open>rejected\<close>: how many store calls have failed so far;
  \<^item> \<open>dates\<close>, \<open>reads\<close>: the text of the \<open>n\<close>-th \<^verbatim>\<open>new Date().toISOString()\<close>,
    and how many have been made;
  \<^item> \<open>logs\<close>: what the logger has received, level and message (the metadata object
    of a log call is left out);
  \<^item> \<open>handlers\<close>: the process signals a \<^verbatim>\<open>process.on\<close> handler was installed for,
    each handler calling \<^verbatim>\<open>shutdown\<close> with the name of its signal;
  \<^item> \<open>slept\<close>: the durations of the \<^verbatim>\<open>sleep\<close> calls made;
  \<^item> \<open>script\<close>: for each coming \<^verbatim>\<open>sleep\<close>, the writes other parties make while the
    controller is suspended.
\<close>

record world =
  store :: keyspace
  faults :: "bool list"
  rejected :: nat
  dates :: "nat \<Rightarrow> string"
  reads :: nat
  logs :: "(level \<times> string) list"
  handlers :: "string list"
  slept :: "int list"
  script :: "ext_action list list"

type_synonym 'a io = "world \<Rightarrow> (failure + 'a) \<times> world"

text \<open>\<^verbatim>\<open>await m\<close> followed by the rest of the function: a failure of \<open>m\<close> ends it.\<close>

definition await :: "'a io \<Rightarrow> ('a \<Rightarrow> 'b io) \<Rightarrow> 'b io" where
  "await m f w = (case m w of (Inl err, w') \<Rightarrow> (Inl err, w') | (Inr a, w') \<Rightarrow> f a w')"

definition return :: "'a \<Rightarrow> 'a io" where
  "return a w = (Inr a, w)"

definition throw :: "failure \<Rightarrow> 'a io" where
  "throw err w = (Inl err, w)"

text \<open>\<^verbatim>\<open>try { m } catch (error) { h(error) }\<close>\<close>

definition try_catch :: "'a io \<Rightarrow> (failure \<Rightarrow> 'a io) \<Rightarrow> 'a io" where
  "try_catch m h w = (case m w of (Inl err, w') \<Rightarrow> h err w' | (Inr a, w') \<Rightarrow> (Inr a, w'))"

text \<open>
  \<^verbatim>\<open>try { m } finally { fin }\<close>: \<open>fin\<close> runs in both cases; the result is that
  of \<open>m\<close> unless \<open>fin\<close> itself fails.
\<close>

definition try_finally :: "'a io \<Rightarrow> unit io \<Rightarrow> 'a io" where
  "try_finally m fin w =
     (case m w of
        (r, w') \<Rightarrow> (case fin w' of (Inl err, w'') \<Rightarrow> (Inl err, w'') | (Inr u, w'') \<Rightarrow> (r, w'')))"

text \<open>Whether the next store call fails outside the keyspace.\<close>

definition fault_due :: "world \<Rightarrow> bool" where
  "fault_due w = (case faults w of [] \<Rightarrow> False | b # bs \<Rightarrow> b)"

text \<open>
  One call of the Redis client: the command runs on the keyspace unless a fault is
  due; a failed call leaves the keyspace as it was and rejects.
\<close>

definition redis :: "(keyspace \<Rightarrow> failure + 'a \<times> keyspace) \<Rightarrow> 'a io" where
  "redis cmd w =
     (if fault_due w
      then (Inl StoreError, w\<lparr>faults := tl (faults w), rejected := Suc (rejected w)\<rparr>)
      else
        (case cmd (store w) of
           Inl err \<Rightarrow> (Inl err, w\<lparr>faults := tl (faults w), rejected := Suc (rejected w)\<rparr>)
         | Inr (a, s') \<Rightarrow> (Inr a, w\<lparr>store := s', faults := tl (faults w)\<rparr>)))"

definition logger :: "level \<Rightarrow> string \<Rightarrow> unit io" where
  "logger lvl msg w = (Inr (), w\<lparr>logs := logs w @ [(lvl, msg)]\<rparr>)"

text \<open>\<^verbatim>\<open>new Date().toISOString()\<close>\<close>

definition Date_now :: "string io" where
  "Date_now w = (Inr (dates w (reads w)), w\<lparr>reads := Suc (reads w)\<rparr>)"

text \<open>\<^verbatim>\<open>process.on(signal, async () => { await shutdown(signal) })\<close>\<close>

definition process_on :: "string \<Rightarrow> unit io" where
  "process_on sig w = (Inr (), w\<lparr>handlers := handlers w @ [sig]\<rparr>)"

text \<open>
  \<^verbatim>\<open>sleep(ms)\<close>: the controller is suspended, and the next batch of the script is
  what the other parties write meanwhile.
\<close>

definition sleep :: "int \<Rightarrow> unit io" where
  "sleep ms w =
     (Inr (), w\<lparr>store := foldl apply_ext (store w) (case script w of [] \<Rightarrow> [] | b # bs \<Rightarrow> b),
               slept := slept w @ [ms],
               script := tl (script w)\<rparr>)"

text \<open>
  \<^verbatim>\<open>String.prototype.toLowerCase\<close> on the letters A to Z. (No text with a character
  outside ASCII lower-cases to "pause", "resume" or "stop", so the other characters
  are left as they are.)
\<close>

definition lower_char :: "char \<Rightarrow> char" where
  "lower_char c =
     (case map_of (zip ''ABCDEFGHIJKLMNOPQRSTUVWXYZ'' ''abcdefghijklmnopqrstuvwxyz'') c of
        None \<Rightarrow> c
      | Some l \<Rightarrow> l)"

definition toLowerCase :: "string \<Rightarrow> string" where
  "toLowerCase s = map lower_char s"

subsection \<open>Descriptors\<close>

text \<open>\<^verbatim>\<open>!x\<close> for a string or \<^verbatim>\<open>null\<close>: true for \<^verbatim>\<open>null\<close> and for the empty string.\<close>

definition falsy :: "string option \<Rightarrow> bool" where
  "falsy x = (case x of None \<Rightarrow> True | Some s \<Rightarrow> s = [])"

text \<open>\<^verbatim>\<open>options.tags ?? []\<close> and \<^verbatim>\<open>options.meta ?? {}\<close>\<close>

definition tags_value :: "env \<Rightarrow> json" where
  "tags_value e = JArr (map JStr (case tags (options e) of None \<Rightarrow> [] | Some ts \<Rightarrow> ts))"

definition meta_value :: "env \<Rightarrow> json" where
  "meta_value e = JObj (case meta (options e) of None \<Rightarrow> [] | Some m \<Rightarrow> m)"

text \<open>The object literal \<^verbatim>\<open>payload\<close> of \<^verbatim>\<open>register\<close>.\<close>

definition register_payload :: "env \<Rightarrow> string \<Rightarrow> (string \<times> json) list" where
  "register_payload e now =
     [(''serviceName'', JStr (serviceName (options e))),
      (''appType'', JStr (appType (options e))),
      (''instanceId'', JStr (instanceId e)),
      (''hostname'', JStr (hostname e)),
      (''pid'', JNum (real (pid e))),
      (''startedAt'', JStr now),
      (''lastSeen'', JStr now),
      (''status'', JStr ''running''),
      (''tags'', tags_value e),
      (''meta'', meta_value e)]"

text \<open>
  \<^verbatim>\<open>try { payload = raw ? JSON.parse(raw) : {} } catch { payload = {} }\<close>
\<close>

definition parse_payload :: "env \<Rightarrow> string option \<Rightarrow> json" where
  "parse_payload e raw =
     (case raw of
        None \<Rightarrow> JObj []
      | Some r \<Rightarrow>
          if r = [] then JObj []
          else (case JSON_parse e r of None \<Rightarrow> JObj [] | Some j \<Rightarrow> j))"

text \<open>
  \<^verbatim>\<open>payload.startedAt\<close>: reading a property of \<^verbatim>\<open>null\<close> throws; of a value that
  is not an object it gives \<^verbatim>\<open>undefined\<close>.
\<close>

definition property :: "json \<Rightarrow> string \<Rightarrow> json option io" where
  "property payload k =
     (case payload of
        JNull \<Rightarrow> throw TypeError
      | JObj props \<Rightarrow> return (field props k)
      | _ \<Rightarrow> return None)"

text \<open>\<^verbatim>\<open>x ?? d\<close>: the default replaces \<^verbatim>\<open>undefined\<close> and \<^verbatim>\<open>null\<close>.\<close>

definition nullish :: "json option \<Rightarrow> bool" where
  "nullish x = (x = None \<or> x = Some JNull)"

definition coalesce :: "json option \<Rightarrow> json \<Rightarrow> json" where
  "coalesce x d = (case x of None \<Rightarrow> d | Some JNull \<Rightarrow> d | Some v \<Rightarrow> v)"

text \<open>The same when the default is itself computed, and only when it is needed.\<close>

definition coalesce_io :: "json option \<Rightarrow> json io \<Rightarrow> json io" where
  "coalesce_io x d = (case x of None \<Rightarrow> d | Some JNull \<Rightarrow> d | Some v \<Rightarrow> return v)"

text \<open>
  The object literal \<^verbatim>\<open>body\<close> of \<^verbatim>\<open>heartbeat\<close>: the properties of the stored
  payload first, then the ten fields, each replacing a property of that name.
\<close>

definition heartbeat_body ::
  "env \<Rightarrow> json \<Rightarrow> json \<Rightarrow> string \<Rightarrow> ServiceState \<Rightarrow> (string \<times> json) list" where
  "heartbeat_body e payload startedAt lastSeen status =
     foldl obj_set (spread payload)
       [(''serviceName'', JStr (serviceName (options e))),
        (''appType'', JStr (appType (options e))),
        (''instanceId'', JStr (instanceId e)),
        (''hostname'', JStr (hostname e)),
        (''pid'', JNum (real (pid e))),
        (''startedAt'', startedAt),
        (''lastSeen'', JStr lastSeen),
        (''status'', JStr (state_text status)),
        (''tags'', tags_value e),
        (''meta'', meta_value e)]"

text \<open>The object literal \<^verbatim>\<open>body\<close> of \<^verbatim>\<open>shutdown\<close>, with \<^verbatim>\<open>reason ?? "manual"\<close>.\<close>

definition shutdown_body ::
  "env \<Rightarrow> json \<Rightarrow> json \<Rightarrow> string \<Rightarrow> string option \<Rightarrow> (string \<times> json) list" where
  "shutdown_body e payload startedAt lastSeen reason =
     foldl obj_set (spread payload)
       [(''serviceName'', JStr (serviceName (options e))),
        (''appType'', JStr (appType (options e))),
        (''instanceId'', JStr (instanceId e)),
        (''hostname'', JStr (hostname e)),
        (''pid'', JNum (real (pid e))),
        (''startedAt'', startedAt),
        (''lastSeen'', JStr lastSeen),
        (''status'', JStr ''stopping''),
        (''tags'', tags_value e),
        (''meta'', meta_value e),
        (''stopReason'', JStr (case reason of None \<Rightarrow> ''manual'' | Some r \<Rightarrow> r))]"

subsection \<open>The operations of the controller\<close>

definition getState :: "env \<Rightarrow> ServiceState io" where
  "getState e =
     await (redis (GET (stateKey e))) (\<lambda>state.
       if state = Some ''paused'' then return Paused
       else if state = Some ''stopping'' then return Stopping
       else return Running)"

definition register :: "env \<Rightarrow> unit io" where
  "register e =
     await Date_now (\<lambda>now.
     await (redis (SADD (servicesSetKey e) (serviceName (options e)))) (\<lambda>_.
     await (redis (SADD (instancesSetKey e) (instanceId e))) (\<lambda>_.
     await (redis (SET_EX (instanceKey e) (JSON_stringify e (JObj (register_payload e now)))
                    (heartbeatTtl (finalConfig e)))) (\<lambda>_.
     await (redis (GET (stateKey e))) (\<lambda>existingState.
     await (if falsy existingState then redis (SET (stateKey e) ''running'') else return ()) (\<lambda>_.
     await (redis (GET (signalKey e))) (\<lambda>pendingSignal.
     await (if existingState = Some ''stopping'' \<and> pendingSignal \<noteq> Some ''stop''
            then await (redis (SET (stateKey e) ''running'')) (\<lambda>_.
                 logger Warn ''Recovered from stale stopping state'')
            else return ()) (\<lambda>_.
     await (process_on ''SIGINT'') (\<lambda>_.
     await (process_on ''SIGTERM'') (\<lambda>_.
     logger Info ''Service registered''))))))))))"

definition heartbeat :: "env \<Rightarrow> ServiceState option \<Rightarrow> unit io" where
  "heartbeat e statusOverride =
     await Date_now (\<lambda>now.
     await (redis (GET (instanceKey e))) (\<lambda>raw.
     let payload = parse_payload e raw in
     await (property payload ''startedAt'') (\<lambda>started.
     await (case statusOverride of Some s \<Rightarrow> return s | None \<Rightarrow> getState e) (\<lambda>status.
     redis (SET_EX (instanceKey e)
              (JSON_stringify e
                 (JObj (heartbeat_body e payload (coalesce started (JStr now)) now status)))
              (heartbeatTtl (finalConfig e)))))))"

definition applySignal :: "env \<Rightarrow> signal_kind io" where
  "applySignal e =
     await (redis (GET (signalKey e))) (\<lambda>signal.
       case signal of
         None \<Rightarrow> return SigNone
       | Some s \<Rightarrow>
           if s = [] then return SigNone
           else
             (let normalized = toLowerCase s in
              if normalized = ''pause'' then
                await (redis (SET (stateKey e) ''paused'')) (\<lambda>_.
                await (redis (DEL (signalKey e))) (\<lambda>_.
                await (logger Warn ''Pause signal applied'') (\<lambda>_.
                return SigPause)))
              else if normalized = ''resume'' then
                await (redis (SET (stateKey e) ''running'')) (\<lambda>_.
                await (redis (DEL (signalKey e))) (\<lambda>_.
                await (logger Warn ''Resume signal applied'') (\<lambda>_.
                return SigResume)))
              else if normalized = ''stop'' then
                await (redis (SET (stateKey e) ''stopping'')) (\<lambda>_.
                await (redis (DEL (signalKey e))) (\<lambda>_.
                await (logger Warn ''Stop signal applied'') (\<lambda>_.
                return SigStop)))
              else
                await (redis (DEL (signalKey e))) (\<lambda>_.
                await (logger Warn ''Unknown signal received'') (\<lambda>_.
                return SigNone))))"

definition shouldStop :: "env \<Rightarrow> bool io" where
  "shouldStop e =
     await (applySignal e) (\<lambda>sig.
     await (getState e) (\<lambda>state.
     return (sig = SigStop \<or> state = Stopping)))"

definition shutdown :: "env \<Rightarrow> string option \<Rightarrow> unit io" where
  "shutdown e reason =
     try_finally
       (try_catch
          (await (redis (SET (stateKey e) ''stopping'')) (\<lambda>_.
           await (redis (GET (instanceKey e))) (\<lambda>raw.
           let payload = parse_payload e raw in
           await (property payload ''startedAt'') (\<lambda>started.
           await (coalesce_io started (await Date_now (\<lambda>d. return (JStr d)))) (\<lambda>startedAt.
           await Date_now (\<lambda>lastSeen.
           await (redis (SET_EX (instanceKey e)
                           (JSON_stringify e
                              (JObj (shutdown_body e payload startedAt lastSeen reason)))
                           10)) (\<lambda>_.
           redis (SREM (instancesSetKey e) (instanceId e)))))))))
          (\<lambda>error. logger Error ''Error during shutdown''))
       (logger Info ''Shutdown complete'')"

text \<open>
  The \<^verbatim>\<open>while (true)\<close> loop of \<^verbatim>\<open>waitIfPaused\<close>. It need not end: \<open>None\<close> is
  the loop that runs forever.
\<close>

partial_function (option) pause_loop :: "env \<Rightarrow> world \<Rightarrow> ((failure + unit) \<times> world) option" where
  "pause_loop e w =
     (case heartbeat e (Some Paused) w of
        (Inl err, w1) \<Rightarrow> Some (Inl err, w1)
      | (Inr u, w1) \<Rightarrow>
         (case applySignal e w1 of
            (Inl err, w2) \<Rightarrow> Some (Inl err, w2)
          | (Inr sig, w2) \<Rightarrow>
             (case getState e w2 of
                (Inl err, w3) \<Rightarrow> Some (Inl err, w3)
              | (Inr state, w3) \<Rightarrow>
                 if sig = SigStop \<or> state = Stopping then Some (Inr (), w3)
                 else if state = Running then Some (logger Info ''Resumed from pause'' w3)
                 else pause_loop e (snd (sleep (pollMs (finalConfig e)) w3)))))"

definition waitIfPaused :: "env \<Rightarrow> world \<Rightarrow> ((failure + unit) \<times> world) option" where
  "waitIfPaused e w =
     (case applySignal e w of
        (Inl err, w1) \<Rightarrow> Some (Inl err, w1)
      | (Inr sig, w1) \<Rightarrow>
         (case getState e w1 of
            (Inl err, w2) \<Rightarrow> Some (Inl err, w2)
          | (Inr state, w2) \<Rightarrow>
             if state \<noteq> Paused then Some (Inr (), w2)
             else pause_loop e (snd (logger Info ''Service paused. Waiting for resume signal...'' w2))))"

subsection \<open>Reading a world\<close>

text \<open>The string a key holds, if it holds one; the members of the set it holds.\<close>

definition string_at :: "keyspace \<Rightarrow> string \<Rightarrow> string option" where
  "string_at s k = (case s k of Some (Str v ttl) \<Rightarrow> Some v | _ \<Rightarrow> None)"

definition members_at :: "keyspace \<Rightarrow> string \<Rightarrow> string set" where
  "members_at s k = (case s k of Some (Members ms) \<Rightarrow> ms | _ \<Rightarrow> {})"

text \<open>No store call to come fails outside the keyspace.\<close>

definition no_faults :: "world \<Rightarrow> bool" where
  "no_faults w = (True \<notin> set (faults w))"

text \<open>
  An operation that leaves an observation \<open>g\<close> of the world as it was, whatever
  its outcome.
\<close>

definition unchanged :: "(world \<Rightarrow> 'b) \<Rightarrow> 'a io \<Rightarrow> bool" where
  "unchanged g m = (\<forall>w. g (snd (m w)) = g w)"

text \<open>
  An operation that lets the failure of a store call through: when a store call has
  failed during it, its own result is that failure.
\<close>

definition propagates :: "'a io \<Rightarrow> bool" where
  "propagates m =
     (\<forall>w. rejected w \<le> rejected (snd (m w)) \<and>
          (rejected (snd (m w)) \<noteq> rejected w \<longrightarrow>
             fst (m w) = Inl StoreError \<or> fst (m w) = Inl ReplyError))"

text \<open>
  The three parts of \<^verbatim>\<open>register\<close>, in the order of the source: the descriptor and
  the two sets; the service-wide state; the termination hooks. \<open>register\<close> is their
  sequence (\<open>register_parts\<close> below).
\<close>

definition register_descriptor :: "env \<Rightarrow> unit io" where
  "register_descriptor e =
     await Date_now (\<lambda>now.
     await (redis (SADD (servicesSetKey e) (serviceName (options e)))) (\<lambda>_.
     await (redis (SADD (instancesSetKey e) (instanceId e))) (\<lambda>_.
     redis (SET_EX (instanceKey e) (JSON_stringify e (JObj (register_payload e now)))
              (heartbeatTtl (finalConfig e))))))"

definition register_state :: "env \<Rightarrow> unit io" where
  "register_state e =
     await (redis (GET (stateKey e))) (\<lambda>existingState.
     await (if falsy existingState then redis (SET (stateKey e) ''running'') else return ()) (\<lambda>_.
     await (redis (GET (signalKey e))) (\<lambda>pendingSignal.
     if existingState = Some ''stopping'' \<and> pendingSignal \<noteq> Some ''stop''
     then await (redis (SET (stateKey e) ''running'')) (\<lambda>_.
          logger Warn ''Recovered from stale stopping state'')
     else return ())))"

definition register_hooks :: "env \<Rightarrow> unit io" where
  "register_hooks e =
     await (process_on ''SIGINT'') (\<lambda>_.
     await (process_on ''SIGTERM'') (\<lambda>_.
     logger Info ''Service registered''))"

text \<open>
  Stale recovery fires: the state read is "stopping" and the signal read is not exactly
  "stop" (the condition of the second \<^verbatim>\<open>if\<close> of \<^verbatim>\<open>register\<close>, on the keyspace).
\<close>

definition recovers :: "env \<Rightarrow> keyspace \<Rightarrow> bool" where
  "recovers e s \<longleftrightarrow>
     string_at s (stateKey e) = Some ''stopping'' \<and> string_at s (signalKey e) \<noteq> Some ''stop''"

text \<open>The state \<^verbatim>\<open>getState\<close> returns when its read of the keyspace succeeds.\<close>

definition read_state :: "env \<Rightarrow> keyspace \<Rightarrow> ServiceState" where
  "read_state e s =
     (if string_at s (stateKey e) = Some ''paused'' then Paused
      else if string_at s (stateKey e) = Some ''stopping'' then Stopping
      else Running)"

text \<open>\<^verbatim>\<open>payload.startedAt\<close> for a payload that is not \<^verbatim>\<open>null\<close>.\<close>

definition stored_startedAt :: "json \<Rightarrow> json option" where
  "stored_startedAt payload =
     (case payload of JObj props \<Rightarrow> field props ''startedAt'' | _ \<Rightarrow> None)"

text \<open>
  The \<^verbatim>\<open>try\<close> block of \<^verbatim>\<open>shutdown\<close>; \<open>shutdown\<close> is this block with its
  \<^verbatim>\<open>catch\<close> and \<^verbatim>\<open>finally\<close> (\<open>shutdown_parts\<close> below).
\<close>

definition shutdown_steps :: "env \<Rightarrow> string option \<Rightarrow> unit io" where
  "shutdown_steps e reason =
     await (redis (SET (stateKey e) ''stopping'')) (\<lambda>_.
     await (redis (GET (instanceKey e))) (\<lambda>raw.
     let payload = parse_payload e raw in
     await (property payload ''startedAt'') (\<lambda>started.
     await (coalesce_io started (await Date_now (\<lambda>d. return (JStr d)))) (\<lambda>startedAt.
     await Date_now (\<lambda>lastSeen.
     await (redis (SET_EX (instanceKey e)
                     (JSON_stringify e
                        (JObj (shutdown_body e payload startedAt lastSeen reason)))
                     10)) (\<lambda>_.
     redis (SREM (instancesSetKey e) (instanceId e))))))))"

subsection \<open>A sample controller\<close>

text \<open>
  A controller with the default configuration, and worlds to run it in. Its JSON codec
  is a toy one that knows two texts; every theorem below holds for any codec.
\<close>

definition example_parse :: "string \<Rightarrow> json option" where
  "example_parse s =
     (if s = ''startedAt=T0;tags=old'' then
        Some (JObj [(''startedAt'', JStr ''T0''), (''tags'', JArr [JStr ''old''])])
      else if s = ''null'' then Some JNull
      else None)"

definition example_stringify :: "json \<Rightarrow> string" where
  "example_stringify j =
     (case j of
        JObj props \<Rightarrow>
          (case (field props ''status'', field props ''startedAt'') of
             (Some (JStr st), Some (JStr t)) \<Rightarrow> ''status='' @ st @ '';startedAt='' @ t
           | _ \<Rightarrow> ''object'')
      | _ \<Rightarrow> ''value'')"

definition example_env :: env where
  "example_env =
     \<lparr>options = \<lparr>serviceName = ''billing'', appType = ''worker'', tags = Some [''eu''],
                 meta = None, config = None\<rparr>,
      hostname = ''host1'', pid = 4242, random_suffix = ''k3x9ab'',
      JSON_parse = example_parse, JSON_stringify = example_stringify\<rparr>"

definition example_world :: "(string \<times> entry) list \<Rightarrow> bool list \<Rightarrow> world" where
  "example_world kvs fs =
     \<lparr>store = map_of kvs, faults = fs, rejected = 0, dates = (\<lambda>n. ''T'' @ decimal (Suc n)),
      reads = 0, logs = [], handlers = [], slept = [], script = []\<rparr>"

section \<open>Basic facts\<close>

subsection \<open>The key schema\<close>

lemma keys_distinct:
  "servicesSetKey e \<noteq> instancesSetKey e" "servicesSetKey e \<noteq> instanceKey e"
  "servicesSetKey e \<noteq> stateKey e" "servicesSetKey e \<noteq> signalKey e"
  "instancesSetKey e \<noteq> instanceKey e" "instancesSetKey e \<noteq> stateKey e"
  "instancesSetKey e \<noteq> signalKey e" "instanceKey e \<noteq> stateKey e"
  "instanceKey e \<noteq> signalKey e" "stateKey e \<noteq> signalKey e"
  by (simp_all add: servicesSetKey_def instancesSetKey_def instanceKey_def stateKey_def
      signalKey_def)

lemmas keys_neq = keys_distinct keys_distinct [symmetric]

subsection \<open>Sequencing\<close>

lemma await_assoc: "await (await m f) g = await m (\<lambda>a. await (f a) g)"
  by (rule ext) (simp add: await_def split: prod.splits sum.splits)

lemma await_Inr_iff:
  "await m f w = (Inr b, w') \<longleftrightarrow> (\<exists>a w1. m w = (Inr a, w1) \<and> f a w1 = (Inr b, w'))"
  by (cases "m w") (auto simp: await_def split: sum.splits)

lemma await_cases [consumes 1, case_names fails continues]:
  assumes "await m f w = (r, w')"
  obtains err where "m w = (Inl err, w')" and "r = Inl err"
  | a w1 where "m w = (Inr a, w1)" and "f a w1 = (r, w')"
  using assms by (cases "m w") (auto simp: await_def split: sum.splits)

lemma register_parts:
  "register e =
     await (register_descriptor e) (\<lambda>_. await (register_state e) (\<lambda>_. register_hooks e))"
  by (simp add: register_def register_descriptor_def register_state_def register_hooks_def
      await_assoc)

subsection \<open>Store calls\<close>

lemma fault_due_no_faults: "no_faults w \<Longrightarrow> \<not> fault_due w"
  by (cases "faults w") (auto simp: no_faults_def fault_due_def)

lemma no_faults_tl: "True \<notin> set fs \<Longrightarrow> True \<notin> set (tl fs)"
  by (cases fs) auto

lemma redis_GET:
  "redis (GET k) w =
     (if fault_due w \<or> (\<exists>ms. store w k = Some (Members ms))
      then (Inl (if fault_due w then StoreError else ReplyError),
            w\<lparr>faults := tl (faults w), rejected := Suc (rejected w)\<rparr>)
      else (Inr (string_at (store w) k), w\<lparr>faults := tl (faults w)\<rparr>))"
  by (simp add: redis_def GET_def string_at_def split: option.splits entry.splits)

lemma redis_SET:
  "redis (SET k v) w =
     (if fault_due w
      then (Inl StoreError, w\<lparr>faults := tl (faults w), rejected := Suc (rejected w)\<rparr>)
      else (Inr (), w\<lparr>store := (store w)(k \<mapsto> Str v None), faults := tl (faults w)\<rparr>))"
  by (simp add: redis_def SET_def)

lemma redis_SET_EX:
  "redis (SET_EX k v ttl) w =
     (if fault_due w \<or> ttl \<le> 0
      then (Inl (if fault_due w then StoreError else ReplyError),
            w\<lparr>faults := tl (faults w), rejected := Suc (rejected w)\<rparr>)
      else (Inr (), w\<lparr>store := (store w)(k \<mapsto> Str v (Some ttl)), faults := tl (faults w)\<rparr>))"
  by (simp add: redis_def SET_EX_def)

lemma redis_DEL:
  "redis (DEL k) w =
     (if fault_due w
      then (Inl StoreError, w\<lparr>faults := tl (faults w), rejected := Suc (rejected w)\<rparr>)
      else (Inr (), w\<lparr>store := (store w)(k := None), faults := tl (faults w)\<rparr>))"
  by (simp add: redis_def DEL_def)

lemma redis_SADD:
  "redis (SADD k m) w =
     (if fault_due w \<or> (\<exists>v ttl. store w k = Some (Str v ttl))
      then (Inl (if fault_due w then StoreError else ReplyError),
            w\<lparr>faults := tl (faults w), rejected := Suc (rejected w)\<rparr>)
      else (Inr (), w\<lparr>store := (store w)(k \<mapsto> Members (insert m (members_at (store w) k))),
                      faults := tl (faults w)\<rparr>))"
  by (simp add: redis_def SADD_def members_at_def split: option.splits entry.splits)

lemma redis_SREM:
  "redis (SREM k m) w =
     (if fault_due w \<or> (\<exists>v ttl. store w k = Some (Str v ttl))
      then (Inl (if fault_due w then StoreError else ReplyError),
            w\<lparr>faults := tl (faults w), rejected := Suc (rejected w)\<rparr>)
      else (Inr (), w\<lparr>store := (if members_at (store w) k - {m} = {} then (store w)(k := None)
                                else (store w)(k \<mapsto> Members (members_at (store w) k - {m}))),
                      faults := tl (faults w)\<rparr>))"
  by (auto simp: redis_def SREM_def members_at_def fun_upd_idem split: option.splits entry.splits)

lemmas redis_calls = redis_GET redis_SET redis_SET_EX redis_DEL redis_SADD redis_SREM

lemmas io_defs = await_def return_def throw_def logger_def Date_now_def process_on_def

lemma string_at_upd [simp]:
  "string_at (s(k \<mapsto> Str v t)) k = Some v"
  "k' \<noteq> k \<Longrightarrow> string_at (s(k := x)) k' = string_at s k'"
  "string_at (s(k := None)) k = None"
  by (simp_all add: string_at_def)

lemma string_at_cases:
  "string_at s k = Some v \<longleftrightarrow> (\<exists>ttl. s k = Some (Str v ttl))"
  by (auto simp: string_at_def split: option.splits entry.splits)


lemma shutdown_parts:
  "shutdown e reason =
     try_finally
       (try_catch (shutdown_steps e reason) (\<lambda>error. logger Error ''Error during shutdown''))
       (logger Info ''Shutdown complete'')"
  by (simp add: shutdown_def shutdown_steps_def)

lemma members_at_upd [simp]:
  "members_at (s(k \<mapsto> Members ms)) k = ms"
  "members_at (s(k := None)) k = {}"
  "k' \<noteq> k \<Longrightarrow> members_at (s(k := x)) k' = members_at s k'"
  by (simp_all add: members_at_def)

lemma no_faults_case [simp]:
  "True \<notin> set fs \<Longrightarrow> (case fs of [] \<Rightarrow> False | b # bs \<Rightarrow> b) = False"
  by (cases fs) auto

lemma toLowerCase_Nil [simp]: "toLowerCase [] = []"
  by (simp add: toLowerCase_def)

subsection \<open>Objects\<close>

lemma field_obj_set:
  "field (obj_set props (k, v)) k' = (if k' = k then Some v else field props k')"
  by (induction props) (auto simp: field_def)

lemma field_heartbeat_body:
  "field (heartbeat_body e payload startedAt lastSeen status) ''tags'' = Some (tags_value e)"
  "field (heartbeat_body e payload startedAt lastSeen status) ''meta'' = Some (meta_value e)"
  "field (heartbeat_body e payload startedAt lastSeen status) ''startedAt'' = Some startedAt"
  "field (heartbeat_body e payload startedAt lastSeen status) ''status'' =
     Some (JStr (state_text status))"
  by (simp_all add: heartbeat_body_def field_obj_set)

lemma field_shutdown_body:
  "field (shutdown_body e payload startedAt lastSeen reason) ''status'' = Some (JStr ''stopping'')"
  "field (shutdown_body e payload startedAt lastSeen reason) ''stopReason'' =
     Some (JStr (case reason of None \<Rightarrow> ''manual'' | Some r \<Rightarrow> r))"
  by (simp_all add: shutdown_body_def field_obj_set)

subsection \<open>Failures that pass through an operation\<close>

lemma propagates_await:
  assumes "propagates m" and "\<And>a. propagates (f a)"
  shows "propagates (await m f)"
  unfolding propagates_def
proof
  fix w
  show "rejected w \<le> rejected (snd (await m f w)) \<and>
        (rejected (snd (await m f w)) \<noteq> rejected w \<longrightarrow>
           fst (await m f w) = Inl StoreError \<or> fst (await m f w) = Inl ReplyError)"
  proof (cases "m w")
    case (Pair r w1)
    have m: "rejected w \<le> rejected w1"
      "rejected w1 \<noteq> rejected w \<longrightarrow> r = Inl StoreError \<or> r = Inl ReplyError"
      using assms(1) Pair by (auto simp: propagates_def dest: spec [of _ w])
    show ?thesis
    proof (cases r)
      case (Inl err)
      with Pair m show ?thesis by (simp add: await_def)
    next
      case (Inr a)
      have f: "rejected w1 \<le> rejected (snd (f a w1))"
        "rejected (snd (f a w1)) \<noteq> rejected w1 \<longrightarrow>
           fst (f a w1) = Inl StoreError \<or> fst (f a w1) = Inl ReplyError"
        using assms(2) [of a] by (auto simp: propagates_def)
      from Inr m have "rejected w1 = rejected w" by auto
      with Inr Pair f show ?thesis by (simp add: await_def)
    qed
  qed
qed

lemma propagates_redis:
  "propagates (redis (GET k))" "propagates (redis (SET k v))"
  "propagates (redis (SET_EX k v ttl))" "propagates (redis (DEL k))"
  "propagates (redis (SADD k x))" "propagates (redis (SREM k x))"
  by (simp_all add: propagates_def redis_calls)

lemma propagates_basic:
  "propagates (return x)" "propagates (throw TypeError)" "propagates (logger lvl msg)"
  "propagates Date_now" "propagates (process_on sig)"
  by (simp_all add: propagates_def io_defs)

lemma propagates_if:
  "propagates a \<Longrightarrow> propagates b \<Longrightarrow> propagates (if c then a else b)"
  by simp

lemma propagates_case_option:
  "propagates a \<Longrightarrow> (\<And>s. propagates (b s)) \<Longrightarrow>
   propagates (case x of None \<Rightarrow> a | Some s \<Rightarrow> b s)"
  by (cases x) simp_all

lemma propagates_property: "propagates (property payload k)"
  by (cases payload) (simp_all add: property_def propagates_basic)

lemma propagates_coalesce_io: "propagates d \<Longrightarrow> propagates (coalesce_io x d)"
  by (simp add: coalesce_io_def propagates_basic split: option.splits json.splits)

lemmas propagates_intros = propagates_await propagates_redis propagates_basic propagates_if
  propagates_case_option propagates_property propagates_coalesce_io

subsection \<open>Operations that do not log\<close>

lemma unchanged_await:
  assumes "unchanged g m" and "\<And>a. unchanged g (f a)"
  shows "unchanged g (await m f)"
  unfolding unchanged_def
proof
  fix w
  have m: "g (snd (m w)) = g w"
    using assms(1) by (simp add: unchanged_def)
  show "g (snd (await m f w)) = g w"
  proof (cases "m w")
    case (Pair r w1)
    show ?thesis
    proof (cases r)
      case (Inl err)
      with Pair m show ?thesis by (simp add: await_def)
    next
      case (Inr a)
      have "g (snd (f a w1)) = g w1"
        using assms(2) [of a] by (simp add: unchanged_def)
      with Inr Pair m show ?thesis by (simp add: await_def)
    qed
  qed
qed

lemma logs_unchanged:
  "unchanged logs (redis cmd)" "unchanged logs (return x)" "unchanged logs (throw err)"
  "unchanged logs Date_now" "unchanged logs (process_on sig)"
  "unchanged logs (property payload k)"
  by (simp_all add: unchanged_def redis_def io_defs property_def
      split: sum.splits prod.splits json.splits)

lemma logs_unchanged_coalesce_io: "unchanged logs d \<Longrightarrow> unchanged logs (coalesce_io x d)"
  by (simp add: coalesce_io_def logs_unchanged split: option.splits json.splits)

subsection \<open>The sample controller\<close>

lemma example_keys:
  "stateKey example_env = ''controlService:control:state:billing''"
  "signalKey example_env = ''controlService:control:signal:billing''"
  "servicesSetKey example_env = ''controlService:control:services''"
  "instancesSetKey example_env = ''controlService:control:service:billing:instances''"
  "instanceKey example_env =
     ''controlService:control:service:billing:instance:host1-4242-k3x9ab''"
  "instanceId example_env = ''host1-4242-k3x9ab''"
  by (simp_all add: servicesSetKey_def instancesSetKey_def instanceKey_def stateKey_def
      signalKey_def instanceId_def finalConfig_def mergeConfig_def DEFAULT_CONFIG_def
      example_env_def decimal.simps)

lemma example_config:
  "heartbeatTtl (finalConfig example_env) = 30" "pollMs (finalConfig example_env) = 1000"
  by (simp_all add: example_env_def finalConfig_def mergeConfig_def DEFAULT_CONFIG_def)

lemma example_codec:
  "JSON_parse example_env = example_parse" "JSON_stringify example_env = example_stringify"
  "example_parse ''startedAt=T0;tags=old'' =
     Some (JObj [(''startedAt'', JStr ''T0''), (''tags'', JArr [JStr ''old''])])"
  by (simp_all add: example_env_def example_parse_def)

lemma field_list:
  "field [] k = None"
  "field ((k', v) # props) k = (if k = k' then Some v else field props k)"
  by (simp_all add: field_def)

lemmas run_simps = io_defs redis_calls example_keys example_config example_world_def falsy_def
  fault_due_def string_at_def members_at_def

section \<open>Registration\<close>

lemma register_descriptor_keeps:
  "k \<noteq> servicesSetKey e \<Longrightarrow> k \<noteq> instancesSetKey e \<Longrightarrow> k \<noteq> instanceKey e \<Longrightarrow>
   store (snd (register_descriptor e w)) k = store w k"
  by (simp add: register_descriptor_def io_defs redis_calls)

lemma register_descriptor_logs: "logs (snd (register_descriptor e w)) = logs w"
  by (simp add: register_descriptor_def io_defs redis_calls)

lemma register_hooks_result:
  "register_hooks e w =
     (Inr (), w\<lparr>logs := logs w @ [(Info, ''Service registered'')],
                handlers := handlers w @ [''SIGINT'', ''SIGTERM'']\<rparr>)"
  by (simp add: register_hooks_def io_defs)

lemma register_state_result:
  assumes "register_state e w = (Inr u, w')"
  shows "store w' (stateKey e) =
           (if falsy (string_at (store w) (stateKey e)) \<or> recovers e (store w)
            then Some (Str ''running'' None) else store w (stateKey e))"
    and "logs w' =
           logs w @ (if recovers e (store w)
                     then [(Warn, ''Recovered from stale stopping state'')] else [])"
  using assms
  by (auto simp: register_state_def io_defs redis_GET redis_SET keys_neq falsy_def recovers_def
      split: if_splits option.splits)

text \<open>
  What a registration that completes has done to the state key and to the log, in
  terms of the keyspace it started from.
\<close>

lemma register_result:
  assumes "register e w = (Inr u, w')"
  shows "store w' (stateKey e) =
           (if falsy (string_at (store w) (stateKey e)) \<or> recovers e (store w)
            then Some (Str ''running'' None) else store w (stateKey e))"
    and "logs w' =
           logs w @ (if recovers e (store w)
                     then [(Warn, ''Recovered from stale stopping state'')] else [])
             @ [(Info, ''Service registered'')]"
proof -
  from assms obtain w1 w2 where
    d: "register_descriptor e w = (Inr (), w1)" and
    s: "register_state e w1 = (Inr (), w2)" and
    h: "register_hooks e w2 = (Inr u, w')"
    by (auto simp: register_parts await_Inr_iff)
  have 1: "store w1 (stateKey e) = store w (stateKey e)"
    "store w1 (signalKey e) = store w (signalKey e)" "logs w1 = logs w"
    using register_descriptor_keeps [of _ e w] register_descriptor_logs [of e w] d
    by (simp_all add: keys_neq)
  then have r: "recovers e (store w1) = recovers e (store w)"
    "string_at (store w1) (stateKey e) = string_at (store w) (stateKey e)"
    by (simp_all add: recovers_def string_at_def)
  have 2: "store w' = store w2" "logs w' = logs w2 @ [(Info, ''Service registered'')]"
    using h by (auto simp: register_hooks_result)
  show "store w' (stateKey e) =
           (if falsy (string_at (store w) (stateKey e)) \<or> recovers e (store w)
            then Some (Str ''running'' None) else store w (stateKey e))"
    using register_state_result(1) [OF s] 1 2 r by simp
  show "logs w' =
           logs w @ (if recovers e (store w)
                     then [(Warn, ''Recovered from stale stopping state'')] else [])
             @ [(Info, ''Service registered'')]"
    using register_state_result(2) [OF s] 1 2 r by simp
qed

text \<open>
  Registration completes when no store call fails, the two set keys hold no string, the
  state and signal keys hold no set, and the heartbeat time to live is positive.
\<close>

lemma register_completes:
  assumes "no_faults w"
    and "\<forall>v t. store w (servicesSetKey e) \<noteq> Some (Str v t)"
    and "\<forall>v t. store w (instancesSetKey e) \<noteq> Some (Str v t)"
    and "0 < heartbeatTtl (finalConfig e)"
    and "\<forall>ms. store w (stateKey e) \<noteq> Some (Members ms)"
    and "\<forall>ms. store w (signalKey e) \<noteq> Some (Members ms)"
  shows "fst (register e w) = Inr ()"
proof -
  obtain r1 w1 where d: "register_descriptor e w = (r1, w1)"
    by (cases "register_descriptor e w")
  have "fst (register_descriptor e w) = Inr ()"
    "faults (snd (register_descriptor e w)) = tl (tl (tl (faults w)))"
    using assms(1-4)
    by (simp_all add: register_descriptor_def io_defs redis_calls no_faults_def fault_due_def
        no_faults_tl keys_neq)
  with d have r1: "r1 = Inr ()" and f1: "faults w1 = tl (tl (tl (faults w)))"
    by simp_all
  have k: "store w1 (stateKey e) = store w (stateKey e)"
    "store w1 (signalKey e) = store w (signalKey e)"
    using register_descriptor_keeps [of _ e w] d by (simp_all add: keys_neq)
  obtain r2 w2 where s: "register_state e w1 = (r2, w2)"
    by (cases "register_state e w1")
  have "fst (register_state e w1) = Inr ()"
    using assms(1,5,6) f1 k
    by (simp add: register_state_def io_defs redis_GET redis_SET no_faults_def fault_due_def
        no_faults_tl keys_neq)
  with s have r2: "r2 = Inr ()"
    by simp
  show ?thesis
    using d r1 s r2 by (simp add: register_parts await_def register_hooks_result)
qed

text \<open>
  Claim C1 (stale-recovery law). Take a registration that completes, in a world where
  the state key holds "stopping". If no signal is pending, the state key holds "running"
  afterwards and the warning has been logged. If the pending signal is exactly "stop",
  the state key is left as it was: it still holds "stopping".
\<close>

theorem register_stale_recovery:
  assumes "register e w = (Inr u, w')"
    and "string_at (store w) (stateKey e) = Some ''stopping''"
  shows "(store w (signalKey e) = None \<longrightarrow>
            store w' (stateKey e) = Some (Str ''running'' None) \<and>
            (Warn, ''Recovered from stale stopping state'') \<in> set (logs w')) \<and>
         (string_at (store w) (signalKey e) = Some ''stop'' \<longrightarrow>
            store w' (stateKey e) = store w (stateKey e) \<and>
            string_at (store w') (stateKey e) = Some ''stopping'')"
  using register_result [OF assms(1)] assms(2)
  by (auto simp: recovers_def falsy_def string_at_def)

text \<open>
  The sample controller registers twice over a state key left at "stopping": with no
  signal the state is back to "running", with the signal "stop" it stays "stopping".
\<close>

theorem register_stale_recovery_witness:
  "fst (register example_env (example_world
          [(''controlService:control:state:billing'', Str ''stopping'' None)] [])) = Inr () \<and>
   store (snd (register example_env (example_world
          [(''controlService:control:state:billing'', Str ''stopping'' None)] [])))
     ''controlService:control:state:billing'' = Some (Str ''running'' None) \<and>
   fst (register example_env (example_world
          [(''controlService:control:state:billing'', Str ''stopping'' None),
           (''controlService:control:signal:billing'', Str ''stop'' None)] [])) = Inr () \<and>
   store (snd (register example_env (example_world
          [(''controlService:control:state:billing'', Str ''stopping'' None),
           (''controlService:control:signal:billing'', Str ''stop'' None)] [])))
     ''controlService:control:state:billing'' = Some (Str ''stopping'' None)"
proof -
  let ?a = "example_world [(''controlService:control:state:billing'', Str ''stopping'' None)] []"
  let ?b = "example_world
          [(''controlService:control:state:billing'', Str ''stopping'' None),
           (''controlService:control:signal:billing'', Str ''stop'' None)] []"
  have fa: "fst (register example_env ?a) = Inr ()"
    by (simp add: register_def run_simps)
  have fb: "fst (register example_env ?b) = Inr ()"
    by (simp add: register_def run_simps)
  have a: "register example_env ?a = (Inr (), snd (register example_env ?a))"
    using fa by (simp add: prod_eq_iff)
  have b: "register example_env ?b = (Inr (), snd (register example_env ?b))"
    using fb by (simp add: prod_eq_iff)
  have sa: "string_at (store ?a) (stateKey example_env) = Some ''stopping''"
    "store ?a (signalKey example_env) = None"
    by (simp_all add: example_keys example_world_def string_at_def)
  have sb: "string_at (store ?b) (stateKey example_env) = Some ''stopping''"
    "string_at (store ?b) (signalKey example_env) = Some ''stop''"
    "store ?b (stateKey example_env) = Some (Str ''stopping'' None)"
    by (simp_all add: example_keys example_world_def string_at_def)
  show ?thesis
    using register_stale_recovery [OF a sa(1)] register_stale_recovery [OF b sb(1)] fa fb sa sb
    by (simp add: example_keys)
qed

text \<open>
  Claim C2 asks the same of every spelling of the stop signal. The code compares the
  pending signal with the exact text "stop", so at the spelling "STOP", which
  \<open>applySignal\<close> does take for a stop signal, the sample controller registers and
  overwrites "stopping" with "running".
\<close>

theorem register_overwrites_despite_uppercase_stop:
  "toLowerCase ''STOP'' = ''stop'' \<and>
   fst (applySignal example_env (example_world
          [(''controlService:control:state:billing'', Str ''stopping'' None),
           (''controlService:control:signal:billing'', Str ''STOP'' None)] [])) = Inr SigStop \<and>
   fst (register example_env (example_world
          [(''controlService:control:state:billing'', Str ''stopping'' None),
           (''controlService:control:signal:billing'', Str ''STOP'' None)] [])) = Inr () \<and>
   store (snd (register example_env (example_world
          [(''controlService:control:state:billing'', Str ''stopping'' None),
           (''controlService:control:signal:billing'', Str ''STOP'' None)] [])))
     (stateKey example_env) = Some (Str ''running'' None)"
  by (simp add: register_def applySignal_def run_simps toLowerCase_def lower_char_def)

text \<open>
  The same for every spelling of "stop" other than the exact one: a registration that
  completes over the state "stopping" overwrites it.
\<close>

lemma register_recovers_on_other_spelling:
  assumes "register e w = (Inr u, w')"
    and "string_at (store w) (stateKey e) = Some ''stopping''"
    and "string_at (store w) (signalKey e) = Some s"
    and "toLowerCase s = ''stop''" and "s \<noteq> ''stop''"
  shows "store w' (stateKey e) = Some (Str ''running'' None)"
  using register_result(1) [OF assms(1)] assms(2,3,5) by (simp add: recovers_def)

text \<open>
  What registration does to the signal key, the state key and the descriptor, whatever
  its outcome.
\<close>

lemma register_state_effect:
  "store (snd (register_state e w)) (signalKey e) = store w (signalKey e) \<and>
   store (snd (register_state e w)) (instanceKey e) = store w (instanceKey e) \<and>
   (store (snd (register_state e w)) (stateKey e) = store w (stateKey e) \<or>
    store (snd (register_state e w)) (stateKey e) = Some (Str ''running'' None) \<and>
    (store w (stateKey e) = None \<or> string_at (store w) (stateKey e) = Some [] \<or>
     recovers e (store w)))"
  by (auto simp: register_state_def await_def return_def logger_def redis_GET redis_SET keys_neq
      recovers_def falsy_def string_at_def split: option.splits entry.splits)

lemma register_descriptor_writes:
  assumes "register_descriptor e w = (Inr u, w1)"
  shows "store w1 (instanceKey e) =
           Some (Str (JSON_stringify e (JObj (register_payload e (dates w (reads w)))))
                   (Some (heartbeatTtl (finalConfig e))))"
  using assms
  by (auto simp: register_descriptor_def await_Inr_iff Date_now_def redis_SADD redis_SET_EX
      split: if_splits)

lemma register_effect:
  assumes "register e w = (r, w')"
  shows "store w' (signalKey e) = store w (signalKey e) \<and>
     (store w' (stateKey e) = store w (stateKey e) \<or>
         store w' (stateKey e) = Some (Str ''running'' None) \<and>
         (store w (stateKey e) = None \<or> string_at (store w) (stateKey e) = Some [] \<or>
          recovers e (store w))) \<and>
     (r = Inr () \<longrightarrow> store w' (instanceKey e) =
           Some (Str (JSON_stringify e (JObj (register_payload e (dates w (reads w)))))
                   (Some (heartbeatTtl (finalConfig e)))))"
proof -
  have d: "store (snd (register_descriptor e w)) (signalKey e) = store w (signalKey e)"
    "store (snd (register_descriptor e w)) (stateKey e) = store w (stateKey e)"
    by (simp_all add: register_descriptor_keeps keys_neq)
  from assms show ?thesis
    unfolding register_parts
  proof (cases rule: await_cases)
    case (fails err)
    then show ?thesis using d by auto
  next
    case (continues a w1)
    have w1: "store w1 (signalKey e) = store w (signalKey e)"
      "store w1 (stateKey e) = store w (stateKey e)"
      "store w1 (instanceKey e) =
           Some (Str (JSON_stringify e (JObj (register_payload e (dates w (reads w)))))
                   (Some (heartbeatTtl (finalConfig e))))"
      using d continues(1) register_descriptor_writes [of e w a w1] by simp_all
    then have r1: "recovers e (store w1) = recovers e (store w)"
      "string_at (store w1) (stateKey e) = string_at (store w) (stateKey e)"
      by (simp_all add: recovers_def string_at_def)
    note s = register_state_effect [of e w1]
    from continues(2) show ?thesis
    proof (cases rule: await_cases)
      case (fails err)
      then show ?thesis using s w1 r1 by auto
    next
      case (continues b w2)
      then have "store w' = store w2" "snd (register_state e w1) = w2"
        by (auto simp: register_hooks_result)
      then show ?thesis using s w1 r1 by auto
    qed
  qed
qed

lemma getState_result:
  "getState e w =
     (if fault_due w \<or> (\<exists>ms. store w (stateKey e) = Some (Members ms))
      then (Inl (if fault_due w then StoreError else ReplyError),
            w\<lparr>faults := tl (faults w), rejected := Suc (rejected w)\<rparr>)
      else (Inr (read_state e (store w)), w\<lparr>faults := tl (faults w)\<rparr>))"
  by (simp add: getState_def io_defs redis_GET read_state_def)

text \<open>
  Claim C9 says that \<open>register\<close> writes the state key only when it was absent or when
  stale recovery fires. The first test of the code is \<^verbatim>\<open>!existingState\<close>, which
  the empty string passes as \<^verbatim>\<open>null\<close> does: over a state key that holds the empty
  string, so is neither absent nor "stopping", the sample controller writes "running".
\<close>

theorem register_overwrites_empty_state:
  "store (example_world [(''controlService:control:state:billing'', Str [] None)] [])
     (stateKey example_env) = Some (Str [] None) \<and>
   \<not> recovers example_env
       (store (example_world [(''controlService:control:state:billing'', Str [] None)] [])) \<and>
   store (snd (register example_env
       (example_world [(''controlService:control:state:billing'', Str [] None)] [])))
     (stateKey example_env) = Some (Str ''running'' None)"
  by (simp add: register_def recovers_def run_simps)

text \<open>
  Claim C9, amended by that one case. Whatever the outcome of \<open>register\<close>:
  \<^item> the signal key is as it was;
  \<^item> when the state key has changed, it now holds "running" with no time to live, and
    before the call it was absent, or held the empty string, or stale recovery fired
    (it held "stopping" and the pending signal was not exactly "stop");
  \<^item> so a state key that holds "running" or "paused" is as it was, and after a call
    over "paused" \<open>getState\<close> still returns \<open>Paused\<close>;
  \<^item> while the descriptor that a completed call has written has the status "running".
\<close>

theorem register_frame:
  assumes "register e w = (r, w')"
  shows "store w' (signalKey e) = store w (signalKey e) \<and>
         (store w' (stateKey e) \<noteq> store w (stateKey e) \<longrightarrow>
            store w' (stateKey e) = Some (Str ''running'' None) \<and>
            (store w (stateKey e) = None \<or> string_at (store w) (stateKey e) = Some [] \<or>
             recovers e (store w))) \<and>
         (string_at (store w) (stateKey e) = Some ''running'' \<or>
          string_at (store w) (stateKey e) = Some ''paused'' \<longrightarrow>
            store w' (stateKey e) = store w (stateKey e)) \<and>
         (string_at (store w) (stateKey e) = Some ''paused'' \<and> \<not> fault_due w' \<longrightarrow>
            fst (getState e w') = Inr Paused) \<and>
         (r = Inr () \<longrightarrow>
            (\<exists>payload.
               store w' (instanceKey e) =
                 Some (Str (JSON_stringify e (JObj payload))
                         (Some (heartbeatTtl (finalConfig e)))) \<and>
               field payload ''status'' = Some (JStr ''running'')))"
proof -
  note eff = register_effect [OF assms]
  have 1: "store w' (signalKey e) = store w (signalKey e)"
    using eff by simp
  have 2: "store w' (stateKey e) \<noteq> store w (stateKey e) \<longrightarrow>
            store w' (stateKey e) = Some (Str ''running'' None) \<and>
            (store w (stateKey e) = None \<or> string_at (store w) (stateKey e) = Some [] \<or>
             recovers e (store w))"
    using eff by blast
  have 3: "string_at (store w) (stateKey e) = Some ''running'' \<or>
          string_at (store w) (stateKey e) = Some ''paused'' \<longrightarrow>
            store w' (stateKey e) = store w (stateKey e)"
    using 2 by (auto simp: recovers_def string_at_def)
  have 4: "string_at (store w) (stateKey e) = Some ''paused'' \<and> \<not> fault_due w' \<longrightarrow>
            fst (getState e w') = Inr Paused"
    using 3 by (auto simp: getState_result read_state_def string_at_def)
  have 5: "r = Inr () \<longrightarrow>
            (\<exists>payload.
               store w' (instanceKey e) =
                 Some (Str (JSON_stringify e (JObj payload))
                         (Some (heartbeatTtl (finalConfig e)))) \<and>
               field payload ''status'' = Some (JStr ''running''))"
  proof
    assume "r = Inr ()"
    with eff have "store w' (instanceKey e) =
           Some (Str (JSON_stringify e (JObj (register_payload e (dates w (reads w)))))
                   (Some (heartbeatTtl (finalConfig e))))"
      by simp
    moreover have "field (register_payload e (dates w (reads w))) ''status'' =
        Some (JStr ''running'')"
      by (simp add: register_payload_def field_def)
    ultimately show "\<exists>payload.
               store w' (instanceKey e) =
                 Some (Str (JSON_stringify e (JObj payload))
                         (Some (heartbeatTtl (finalConfig e)))) \<and>
               field payload ''status'' = Some (JStr ''running'')"
      by blast
  qed
  show ?thesis
    using 1 2 3 4 5 by blast
qed

text \<open>
  The sample controller registers for a paused service: the state key still holds
  "paused", \<open>getState\<close> returns \<open>Paused\<close>, and the descriptor written says "running".
\<close>

theorem register_frame_witness:
  "fst (register example_env (example_world
          [(''controlService:control:state:billing'', Str ''paused'' None)] [])) = Inr () \<and>
   store (snd (register example_env (example_world
          [(''controlService:control:state:billing'', Str ''paused'' None)] [])))
     (stateKey example_env) = Some (Str ''paused'' None) \<and>
   store (snd (register example_env (example_world
          [(''controlService:control:state:billing'', Str ''paused'' None)] [])))
     (signalKey example_env) = None \<and>
   fst (getState example_env (snd (register example_env (example_world
          [(''controlService:control:state:billing'', Str ''paused'' None)] [])))) = Inr Paused \<and>
   (\<exists>payload.
      store (snd (register example_env (example_world
          [(''controlService:control:state:billing'', Str ''paused'' None)] [])))
        (instanceKey example_env) = Some (Str (example_stringify (JObj payload)) (Some 30)) \<and>
      field payload ''status'' = Some (JStr ''running''))"
proof -
  let ?w = "example_world [(''controlService:control:state:billing'', Str ''paused'' None)] []"
  have f: "fst (register example_env ?w) = Inr ()"
    by (simp add: register_def run_simps)
  then have r: "register example_env ?w = (Inr (), snd (register example_env ?w))"
    by (simp add: prod_eq_iff)
  have s: "string_at (store ?w) (stateKey example_env) = Some ''paused''"
    "store ?w (stateKey example_env) = Some (Str ''paused'' None)"
    "store ?w (signalKey example_env) = None"
    by (simp_all add: example_keys example_world_def string_at_def)
  have q: "\<not> fault_due (snd (register example_env ?w))"
    by (simp add: register_def run_simps)
  have c: "JSON_stringify example_env = example_stringify"
    by (simp add: example_env_def)
  show ?thesis
    using register_frame [OF r] f s q c by (simp add: example_config)
qed


section \<open>Signals and state\<close>

lemma applySignal_none:
  assumes "falsy (string_at (store w) (signalKey e))"
    and "\<forall>ms. store w (signalKey e) \<noteq> Some (Members ms)"
    and "\<not> fault_due w"
  shows "applySignal e w = (Inr SigNone, w\<lparr>faults := tl (faults w)\<rparr>)"
  using assms by (auto simp: applySignal_def io_defs redis_GET falsy_def split: option.splits)

lemma applySignal_recognized:
  assumes "string_at (store w) (signalKey e) = Some s"
    and "(toLowerCase s, kind, st, msg) \<in>
           {(''pause'', SigPause, ''paused'', ''Pause signal applied''),
            (''resume'', SigResume, ''running'', ''Resume signal applied''),
            (''stop'', SigStop, ''stopping'', ''Stop signal applied'')}"
    and "no_faults w"
  shows "applySignal e w =
           (Inr kind, w\<lparr>store := (store w)(stateKey e \<mapsto> Str st None, signalKey e := None),
                         faults := tl (tl (tl (faults w))),
                         logs := logs w @ [(Warn, msg)]\<rparr>)"
proof -
  have s: "s \<noteq> []" "\<forall>ms. store w (signalKey e) \<noteq> Some (Members ms)"
    using assms(1,2) by (auto simp: string_at_def)
  show ?thesis
    using assms s
    by (auto simp: applySignal_def io_defs redis_GET redis_SET redis_DEL no_faults_def
        fault_due_def no_faults_tl Let_def)
qed

lemma applySignal_stop_state:
  assumes "applySignal e w = (Inr SigStop, w1)"
  shows "string_at (store w1) (stateKey e) = Some ''stopping''"
  using assms
  by (auto simp: applySignal_def await_Inr_iff redis_GET redis_SET redis_DEL return_def
      logger_def Let_def keys_neq split: option.splits if_splits)

text \<open>
  Claim C3 (consume-once law). Let the signal key hold one recognized signal, in any
  spelling of "pause", "resume" or "stop", and let no store call fail. Then the first
  \<open>applySignal\<close> returns the kind of the signal, having written the corresponding
  state, deleted the signal key and logged one warning; and the second returns "none"
  and leaves the keyspace and the log as the first left them.
\<close>

theorem applySignal_consume_once:
  assumes "string_at (store w) (signalKey e) = Some s"
    and "(toLowerCase s, kind, st, msg) \<in>
           {(''pause'', SigPause, ''paused'', ''Pause signal applied''),
            (''resume'', SigResume, ''running'', ''Resume signal applied''),
            (''stop'', SigStop, ''stopping'', ''Stop signal applied'')}"
    and "no_faults w"
  shows "\<exists>w1 w2.
           applySignal e w = (Inr kind, w1) \<and>
           store w1 = (store w)(stateKey e \<mapsto> Str st None, signalKey e := None) \<and>
           logs w1 = logs w @ [(Warn, msg)] \<and>
           applySignal e w1 = (Inr SigNone, w2) \<and>
           store w2 = store w1 \<and> logs w2 = logs w1"
proof -
  let ?w1 = "w\<lparr>store := (store w)(stateKey e \<mapsto> Str st None, signalKey e := None),
                faults := tl (tl (tl (faults w))),
                logs := logs w @ [(Warn, msg)]\<rparr>"
  have 1: "applySignal e w = (Inr kind, ?w1)"
    by (rule applySignal_recognized [OF assms])
  have "\<not> fault_due ?w1"
    using assms(3) by (simp add: no_faults_def fault_due_def no_faults_tl)
  then have 2: "applySignal e ?w1 = (Inr SigNone, ?w1\<lparr>faults := tl (faults ?w1)\<rparr>)"
    by (intro applySignal_none) (simp_all add: falsy_def)
  show ?thesis
    using 1 2 by simp
qed

text \<open>
  The sample controller with the signal "PAUSE" pending over the state "running": the
  first call pauses the service and consumes the signal, the second finds none.
\<close>

theorem applySignal_consume_once_witness:
  "\<exists>w1 w2.
     applySignal example_env (example_world
        [(''controlService:control:state:billing'', Str ''running'' None),
         (''controlService:control:signal:billing'', Str ''PAUSE'' None)] []) = (Inr SigPause, w1) \<and>
     store w1 (stateKey example_env) = Some (Str ''paused'' None) \<and>
     store w1 (signalKey example_env) = None \<and>
     logs w1 = [(Warn, ''Pause signal applied'')] \<and>
     applySignal example_env w1 = (Inr SigNone, w2) \<and>
     store w2 = store w1 \<and> logs w2 = logs w1"
proof -
  let ?w = "example_world
        [(''controlService:control:state:billing'', Str ''running'' None),
         (''controlService:control:signal:billing'', Str ''PAUSE'' None)] []"
  have 1: "string_at (store ?w) (signalKey example_env) = Some ''PAUSE''"
    by (simp add: example_keys example_world_def string_at_def)
  have 2: "(toLowerCase ''PAUSE'', SigPause, ''paused'', ''Pause signal applied'') \<in>
           {(''pause'', SigPause, ''paused'', ''Pause signal applied''),
            (''resume'', SigResume, ''running'', ''Resume signal applied''),
            (''stop'', SigStop, ''stopping'', ''Stop signal applied'')}"
    by (simp add: toLowerCase_def lower_char_def)
  have 3: "no_faults ?w" "logs ?w = []"
    by (simp_all add: no_faults_def example_world_def)
  from applySignal_consume_once [OF 1 2 3(1)] obtain w1 w2 where
    "applySignal example_env ?w = (Inr SigPause, w1)"
    "store w1 = (store ?w)(stateKey example_env \<mapsto> Str ''paused'' None,
                           signalKey example_env := None)"
    "logs w1 = logs ?w @ [(Warn, ''Pause signal applied'')]"
    "applySignal example_env w1 = (Inr SigNone, w2)" "store w2 = store w1" "logs w2 = logs w1"
    by blast
  then show ?thesis
    using 3(2) by (intro exI [of _ w1] exI [of _ w2]) (simp add: keys_neq)
qed

text \<open>
  Claim C6. \<open>getState\<close> never changes the keyspace, two calls in a row that both
  return give the same state, and a read that is not rejected returns \<open>Running\<close> for
  every string that the state key may hold other than "paused" and "stopping", and when
  the key is absent.
\<close>

theorem getState_idempotent_default:
  "store (snd (getState e w)) = store w \<and>
   (\<forall>a w1 b w2. getState e w = (Inr a, w1) \<and> getState e w1 = (Inr b, w2) \<longrightarrow> a = b) \<and>
   (\<not> fault_due w \<and> (\<forall>ms. store w (stateKey e) \<noteq> Some (Members ms)) \<and>
    string_at (store w) (stateKey e) \<noteq> Some ''paused'' \<and>
    string_at (store w) (stateKey e) \<noteq> Some ''stopping'' \<longrightarrow>
      fst (getState e w) = Inr Running)"
  by (auto simp: getState_result read_state_def split: if_splits)

text \<open>
  The sample controller reads a state key that holds "halted", and one that is absent:
  both reads return \<open>Running\<close>, and a second read agrees with the first.
\<close>

theorem getState_idempotent_default_witness:
  "fst (getState example_env (example_world
          [(''controlService:control:state:billing'', Str ''halted'' None)] [])) = Inr Running \<and>
   fst (getState example_env (snd (getState example_env (example_world
          [(''controlService:control:state:billing'', Str ''halted'' None)] [])))) = Inr Running \<and>
   store (snd (getState example_env (example_world
          [(''controlService:control:state:billing'', Str ''halted'' None)] []))) =
     store (example_world [(''controlService:control:state:billing'', Str ''halted'' None)] []) \<and>
   fst (getState example_env (example_world [] [])) = Inr Running"
proof -
  let ?w = "example_world [(''controlService:control:state:billing'', Str ''halted'' None)] []"
  have h: "\<not> fault_due ?w" "\<forall>ms. store ?w (stateKey example_env) \<noteq> Some (Members ms)"
    "string_at (store ?w) (stateKey example_env) \<noteq> Some ''paused''"
    "string_at (store ?w) (stateKey example_env) \<noteq> Some ''stopping''"
    by (simp_all add: example_keys example_world_def string_at_def fault_due_def)
  have h0: "\<not> fault_due (example_world [] [])"
    "\<forall>ms. store (example_world [] []) (stateKey example_env) \<noteq> Some (Members ms)"
    "string_at (store (example_world [] [])) (stateKey example_env) \<noteq> Some ''paused''"
    "string_at (store (example_world [] [])) (stateKey example_env) \<noteq> Some ''stopping''"
    by (simp_all add: example_keys example_world_def string_at_def fault_due_def)
  have 2: "fst (getState example_env (snd (getState example_env ?w))) = Inr Running"
    by (simp add: getState_def run_simps)
  show ?thesis
    using getState_idempotent_default [of example_env ?w]
      getState_idempotent_default [of example_env "example_world [] []"] h h0 2
    by simp
qed

text \<open>
  Claim C4. \<open>shouldStop\<close> returns a boolean exactly when its one \<open>applySignal\<close> and
  the \<open>getState\<close> after it return, and the boolean is true if and only if the signal
  applied was "stop" or the state read is \<open>Stopping\<close>. When it returns, that is the
  same as the state key holding "stopping" in the world it returns.
\<close>

theorem shouldStop_iff:
  "(shouldStop e w = (Inr b, w') \<longleftrightarrow>
     (\<exists>sig w1 state.
        applySignal e w = (Inr sig, w1) \<and> getState e w1 = (Inr state, w') \<and>
        b = (sig = SigStop \<or> state = Stopping))) \<and>
   (shouldStop e w = (Inr b, w') \<longrightarrow>
      b = (string_at (store w') (stateKey e) = Some ''stopping''))"
proof -
  have 1: "shouldStop e w = (Inr b, w') \<longleftrightarrow>
     (\<exists>sig w1 state.
        applySignal e w = (Inr sig, w1) \<and> getState e w1 = (Inr state, w') \<and>
        b = (sig = SigStop \<or> state = Stopping))"
    by (auto simp: shouldStop_def await_Inr_iff return_def)
  have 2: "b = (string_at (store w') (stateKey e) = Some ''stopping'')"
    if "shouldStop e w = (Inr b, w')"
  proof -
    from that 1 obtain sig w1 state where
      a: "applySignal e w = (Inr sig, w1)" and g: "getState e w1 = (Inr state, w')" and
      b: "b = (sig = SigStop \<or> state = Stopping)"
      by blast
    from g have st: "state = read_state e (store w1)" "store w' = store w1"
      by (auto simp: getState_result split: if_splits)
    have "sig = SigStop \<Longrightarrow> string_at (store w1) (stateKey e) = Some ''stopping''"
      using a applySignal_stop_state by blast
    with b st show ?thesis
      by (auto simp: read_state_def)
  qed
  show ?thesis
    using 1 2 by blast
qed

text \<open>
  The sample controller with the signal "stop" pending over the state "running" is told
  to stop; with nothing pending over "running" it is not.
\<close>

theorem shouldStop_iff_witness:
  "fst (shouldStop example_env (example_world
          [(''controlService:control:state:billing'', Str ''running'' None),
           (''controlService:control:signal:billing'', Str ''stop'' None)] [])) = Inr True \<and>
   string_at (store (snd (shouldStop example_env (example_world
          [(''controlService:control:state:billing'', Str ''running'' None),
           (''controlService:control:signal:billing'', Str ''stop'' None)] []))))
     (stateKey example_env) = Some ''stopping'' \<and>
   fst (shouldStop example_env (example_world
          [(''controlService:control:state:billing'', Str ''running'' None)] [])) = Inr False"
proof -
  let ?a = "example_world
          [(''controlService:control:state:billing'', Str ''running'' None),
           (''controlService:control:signal:billing'', Str ''stop'' None)] []"
  let ?b = "example_world [(''controlService:control:state:billing'', Str ''running'' None)] []"
  have a: "fst (shouldStop example_env ?a) = Inr True"
    by (simp add: shouldStop_def applySignal_def getState_def run_simps toLowerCase_def
        lower_char_def)
  have b: "fst (shouldStop example_env ?b) = Inr False"
    by (simp add: shouldStop_def applySignal_def getState_def run_simps)
  have a': "shouldStop example_env ?a = (Inr True, snd (shouldStop example_env ?a))"
    using a by (simp add: prod_eq_iff)
  show ?thesis
    using shouldStop_iff [of example_env ?a True "snd (shouldStop example_env ?a)"] a' a b
    by simp
qed


section \<open>The pause loop\<close>

text \<open>
  Claim C5. Let the signal "stop" (in any spelling) be pending and no store call fail.
  Then \<open>waitIfPaused\<close> returns, in a world where the state key holds "stopping" and
  the signal key is gone, every other key is as it was (no heartbeat wrote the
  descriptor), the clock has not been read and no \<open>sleep\<close> was made; and
  \<open>shouldStop\<close> there returns true. This holds whatever the state key held before,
  "paused" in particular. More generally, whenever the first \<open>applySignal\<close> returns and
  the state read after it is not \<open>Paused\<close>, \<open>waitIfPaused\<close> returns at once, in the
  world that read left.
\<close>

theorem waitIfPaused_returns_at_once:
  "(no_faults w \<and> string_at (store w) (signalKey e) = Some s \<and> toLowerCase s = ''stop'' \<longrightarrow>
      (\<exists>w'. waitIfPaused e w = Some (Inr (), w') \<and>
            store w' = (store w)(stateKey e \<mapsto> Str ''stopping'' None, signalKey e := None) \<and>
            reads w' = reads w \<and> slept w' = slept w \<and>
            fst (shouldStop e w') = Inr True)) \<and>
   (\<forall>sig w1 state w2.
      applySignal e w = (Inr sig, w1) \<and> getState e w1 = (Inr state, w2) \<and> state \<noteq> Paused \<longrightarrow>
      waitIfPaused e w = Some (Inr (), w2))"
proof (intro conjI impI allI)
  assume a: "no_faults w \<and> string_at (store w) (signalKey e) = Some s \<and> toLowerCase s = ''stop''"
  let ?w1 = "w\<lparr>store := (store w)(stateKey e \<mapsto> Str ''stopping'' None, signalKey e := None),
                faults := tl (tl (tl (faults w))),
                logs := logs w @ [(Warn, ''Stop signal applied'')]\<rparr>"
  let ?w2 = "?w1\<lparr>faults := tl (faults ?w1)\<rparr>"
  let ?w3 = "?w2\<lparr>faults := tl (faults ?w2)\<rparr>"
  have 1: "applySignal e w = (Inr SigStop, ?w1)"
    using a by (intro applySignal_recognized [where s = s]) simp_all
  have nf: "\<not> fault_due ?w1" "\<not> fault_due ?w2" "\<not> fault_due ?w3"
    using a by (simp_all add: no_faults_def fault_due_def no_faults_tl)
  have 2: "getState e ?w1 = (Inr Stopping, ?w2)"
    using nf(1) by (simp add: getState_result read_state_def keys_neq)
  have 3: "waitIfPaused e w = Some (Inr (), ?w2)"
    using 1 2 by (simp add: waitIfPaused_def)
  have 4: "applySignal e ?w2 = (Inr SigNone, ?w3)"
    using nf(2) by (intro applySignal_none) (simp_all add: falsy_def)
  have 5: "getState e ?w3 = (Inr Stopping, ?w3\<lparr>faults := tl (faults ?w3)\<rparr>)"
    using nf(3) by (simp add: getState_result read_state_def keys_neq)
  have 6: "fst (shouldStop e ?w2) = Inr True"
    using 4 5 by (simp add: shouldStop_def await_def return_def)
  show "\<exists>w'. waitIfPaused e w = Some (Inr (), w') \<and>
            store w' = (store w)(stateKey e \<mapsto> Str ''stopping'' None, signalKey e := None) \<and>
            reads w' = reads w \<and> slept w' = slept w \<and>
            fst (shouldStop e w') = Inr True"
    using 3 6 by (intro exI [of _ ?w2]) simp
next
  fix sig w1 state w2
  assume "applySignal e w = (Inr sig, w1) \<and> getState e w1 = (Inr state, w2) \<and> state \<noteq> Paused"
  then show "waitIfPaused e w = Some (Inr (), w2)"
    by (simp add: waitIfPaused_def)
qed

text \<open>
  The sample controller, paused, with the signal "stop" pending: it returns with the
  state "stopping", the signal consumed, no descriptor written and no sleep made, and is
  then told to stop.
\<close>

theorem waitIfPaused_returns_at_once_witness:
  "\<exists>w'. waitIfPaused example_env (example_world
            [(''controlService:control:state:billing'', Str ''paused'' None),
             (''controlService:control:signal:billing'', Str ''stop'' None)] []) = Some (Inr (), w') \<and>
        store w' (stateKey example_env) = Some (Str ''stopping'' None) \<and>
        store w' (signalKey example_env) = None \<and>
        store w' (instanceKey example_env) = None \<and>
        reads w' = 0 \<and> slept w' = [] \<and>
        fst (shouldStop example_env w') = Inr True"
proof -
  let ?w = "example_world
            [(''controlService:control:state:billing'', Str ''paused'' None),
             (''controlService:control:signal:billing'', Str ''stop'' None)] []"
  have h: "no_faults ?w \<and> string_at (store ?w) (signalKey example_env) = Some ''stop'' \<and>
           toLowerCase ''stop'' = ''stop''"
    by (simp add: no_faults_def example_keys example_world_def string_at_def toLowerCase_def
        lower_char_def)
  have w: "store ?w (instanceKey example_env) = None" "reads ?w = 0" "slept ?w = []"
    by (simp_all add: example_keys example_world_def)
  from waitIfPaused_returns_at_once [of ?w example_env "''stop''"] h obtain w' where
    "waitIfPaused example_env ?w = Some (Inr (), w')"
    "store w' = (store ?w)(stateKey example_env \<mapsto> Str ''stopping'' None,
                           signalKey example_env := None)"
    "reads w' = reads ?w" "slept w' = slept ?w" "fst (shouldStop example_env w') = Inr True"
    by blast
  then show ?thesis
    using w by (intro exI [of _ w']) (simp add: keys_neq)
qed

text \<open>One round of the loop, when its three calls return.\<close>

lemma pause_loop_round:
  assumes "heartbeat e (Some Paused) w = (Inr u, w1)"
    and "applySignal e w1 = (Inr sig, w2)"
    and "getState e w2 = (Inr state, w3)"
  shows "pause_loop e w =
           (if sig = SigStop \<or> state = Stopping then Some (Inr (), w3)
            else if state = Running then Some (logger Info ''Resumed from pause'' w3)
            else pause_loop e (snd (sleep (pollMs (finalConfig e)) w3)))"
  by (subst pause_loop.simps) (simp add: assms)

text \<open>
  The loop on the sample controller: paused with nothing pending, it sleeps once; an
  operator writes "resume" meanwhile; the second round applies it and the call returns,
  after two heartbeats and one sleep of the poll interval.
\<close>

lemma waitIfPaused_resumes_example:
  "\<exists>w'. waitIfPaused example_env
           ((example_world [(''controlService:control:state:billing'', Str ''paused'' None)] [])
              \<lparr>script := [[ExtSet ''controlService:control:signal:billing'' ''resume'']]\<rparr>)
           = Some (Inr (), w') \<and>
         store w' (stateKey example_env) = Some (Str ''running'' None) \<and>
         store w' (signalKey example_env) = None \<and>
         slept w' = [1000] \<and> reads w' = 2 \<and>
         logs w' = [(Info, ''Service paused. Waiting for resume signal...''),
                    (Warn, ''Resume signal applied''), (Info, ''Resumed from pause'')]"
proof -
  note ops = applySignal_def getState_def heartbeat_def property_def parse_payload_def
    sleep_def Let_def run_simps toLowerCase_def lower_char_def example_codec(1,2)
    example_stringify_def example_parse_def field_heartbeat_body coalesce_def field_list
  define w0 where "w0 =
    (example_world [(''controlService:control:state:billing'', Str ''paused'' None)] [])
      \<lparr>script := [[ExtSet ''controlService:control:signal:billing'' ''resume'']]\<rparr>"
  define wa where "wa = snd (applySignal example_env w0)"
  define wg where "wg = snd (getState example_env wa)"
  define wl where "wl = snd (logger Info ''Service paused. Waiting for resume signal...'' wg)"
  define w1 where "w1 = snd (heartbeat example_env (Some Paused) wl)"
  define w2 where "w2 = snd (applySignal example_env w1)"
  define w3 where "w3 = snd (getState example_env w2)"
  define w4 where "w4 = snd (sleep (pollMs (finalConfig example_env)) w3)"
  define w5 where "w5 = snd (heartbeat example_env (Some Paused) w4)"
  define w6 where "w6 = snd (applySignal example_env w5)"
  define w7 where "w7 = snd (getState example_env w6)"
  define w8 where "w8 = snd (logger Info ''Resumed from pause'' w7)"
  note ws = w8_def w7_def w6_def w5_def w4_def w3_def w2_def w1_def wl_def wg_def wa_def w0_def
  have a: "applySignal example_env w0 = (Inr SigNone, wa)"
    by (simp add: prod_eq_iff ws ops)
  have g: "getState example_env wa = (Inr Paused, wg)"
    by (simp add: prod_eq_iff ws ops)
  have 0: "waitIfPaused example_env w0 = pause_loop example_env wl"
    using a g by (simp add: waitIfPaused_def wl_def)
  have h1: "heartbeat example_env (Some Paused) wl = (Inr (), w1)"
    by (simp add: prod_eq_iff ws ops)
  have a1: "applySignal example_env w1 = (Inr SigNone, w2)"
    by (simp add: prod_eq_iff ws ops)
  have g1: "getState example_env w2 = (Inr Paused, w3)"
    by (simp add: prod_eq_iff ws ops)
  have 1: "pause_loop example_env wl = pause_loop example_env w4"
    using pause_loop_round [OF h1 a1 g1] by (simp add: w4_def)
  have h2: "heartbeat example_env (Some Paused) w4 = (Inr (), w5)"
    by (simp add: prod_eq_iff ws ops)
  have a2: "applySignal example_env w5 = (Inr SigResume, w6)"
    by (simp add: prod_eq_iff ws ops)
  have g2: "getState example_env w6 = (Inr Running, w7)"
    by (simp add: prod_eq_iff ws ops)
  have 2: "pause_loop example_env w4 = Some (Inr (), w8)"
    using pause_loop_round [OF h2 a2 g2] by (simp add: w8_def logger_def)
  have 3: "store w8 (stateKey example_env) = Some (Str ''running'' None)"
    "store w8 (signalKey example_env) = None" "slept w8 = [1000]" "reads w8 = 2"
    "logs w8 = [(Info, ''Service paused. Waiting for resume signal...''),
                (Warn, ''Resume signal applied''), (Info, ''Resumed from pause'')]"
    by (simp_all add: ws ops)
  show ?thesis
    using 0 1 2 3 unfolding w0_def by (intro exI [of _ w8]) simp
qed

section \<open>Heartbeat\<close>

lemma heartbeat_writes:
  assumes "heartbeat e statusOverride w = (Inr u, w')"
  shows "store w' (instanceKey e) =
           Some (Str (JSON_stringify e (JObj (heartbeat_body e
                        (parse_payload e (string_at (store w) (instanceKey e)))
                        (coalesce
                           (stored_startedAt (parse_payload e (string_at (store w) (instanceKey e))))
                           (JStr (dates w (reads w))))
                        (dates w (reads w))
                        (case statusOverride of
                           Some s \<Rightarrow> s | None \<Rightarrow> read_state e (store w)))))
                   (Some (heartbeatTtl (finalConfig e))))"
  using assms
  by (auto simp: heartbeat_def await_Inr_iff Date_now_def Let_def redis_GET redis_SET_EX
      property_def return_def throw_def getState_result read_state_def stored_startedAt_def
      split: if_splits option.splits json.splits)

text \<open>
  A heartbeat need not complete even when the store answers: over a descriptor text that
  parses to \<^verbatim>\<open>null\<close>, reading \<^verbatim>\<open>payload.startedAt\<close> throws, before anything is
  written. \<open>shutdown\<close> meets the same exception inside its \<^verbatim>\<open>try\<close> block, logs it
  and leaves the descriptor as it was.
\<close>

lemma null_descriptor_example:
  "fst (heartbeat example_env None (example_world
          [(''controlService:control:service:billing:instance:host1-4242-k3x9ab'',
            Str ''null'' (Some 30))] [])) = Inl TypeError"
  "store (snd (shutdown example_env None (example_world
          [(''controlService:control:service:billing:instance:host1-4242-k3x9ab'',
            Str ''null'' (Some 30))] []))) (instanceKey example_env) = Some (Str ''null'' (Some 30))"
  "logs (snd (shutdown example_env None (example_world
          [(''controlService:control:service:billing:instance:host1-4242-k3x9ab'',
            Str ''null'' (Some 30))] []))) =
     [(Error, ''Error during shutdown''), (Info, ''Shutdown complete'')]"
  by (simp_all add: heartbeat_def shutdown_def try_finally_def try_catch_def property_def
      parse_payload_def Let_def run_simps example_codec(1) example_parse_def)

text \<open>
  Claim C10. Every \<open>heartbeat\<close> that completes has written, under the descriptor key and
  with the heartbeat time to live, a descriptor whose "tags" and "meta" are those of the
  controller's options (the empty list and the empty object when an option is missing),
  whatever the stored descriptor said; and whose "startedAt" is that of the stored
  descriptor when the stored text parses to an object that has one (other than
  \<^verbatim>\<open>null\<close>).
\<close>

theorem heartbeat_resets_tags_and_meta:
  assumes "heartbeat e statusOverride w = (Inr u, w')"
  shows "\<exists>body.
           store w' (instanceKey e) =
             Some (Str (JSON_stringify e (JObj body)) (Some (heartbeatTtl (finalConfig e)))) \<and>
           field body ''tags'' =
             Some (JArr (map JStr (case tags (options e) of None \<Rightarrow> [] | Some ts \<Rightarrow> ts))) \<and>
           field body ''meta'' =
             Some (JObj (case meta (options e) of None \<Rightarrow> [] | Some m \<Rightarrow> m)) \<and>
           (\<forall>raw props v.
              string_at (store w) (instanceKey e) = Some raw \<and> raw \<noteq> [] \<and>
              JSON_parse e raw = Some (JObj props) \<and>
              field props ''startedAt'' = Some v \<and> v \<noteq> JNull \<longrightarrow>
              field body ''startedAt'' = Some v)"
proof -
  let ?payload = "parse_payload e (string_at (store w) (instanceKey e))"
  let ?body = "heartbeat_body e ?payload
                 (coalesce (stored_startedAt ?payload) (JStr (dates w (reads w))))
                 (dates w (reads w))
                 (case statusOverride of Some s \<Rightarrow> s | None \<Rightarrow> read_state e (store w))"
  have "store w' (instanceKey e) =
          Some (Str (JSON_stringify e (JObj ?body)) (Some (heartbeatTtl (finalConfig e))))"
    by (rule heartbeat_writes [OF assms])
  moreover have "field ?body ''tags'' =
             Some (JArr (map JStr (case tags (options e) of None \<Rightarrow> [] | Some ts \<Rightarrow> ts)))"
    by (simp add: field_heartbeat_body tags_value_def)
  moreover have "field ?body ''meta'' =
             Some (JObj (case meta (options e) of None \<Rightarrow> [] | Some m \<Rightarrow> m))"
    by (simp add: field_heartbeat_body meta_value_def)
  moreover have "\<forall>raw props v.
              string_at (store w) (instanceKey e) = Some raw \<and> raw \<noteq> [] \<and>
              JSON_parse e raw = Some (JObj props) \<and>
              field props ''startedAt'' = Some v \<and> v \<noteq> JNull \<longrightarrow>
              field ?body ''startedAt'' = Some v"
    by (auto simp: field_heartbeat_body parse_payload_def coalesce_def stored_startedAt_def
        split: json.splits)
  ultimately show ?thesis by blast
qed

text \<open>
  The sample controller over a stored descriptor that was started at T0 and whose tags
  someone has changed to "old": the heartbeat writes the tag "eu" of its options and an
  empty "meta", and keeps T0.
\<close>

theorem heartbeat_resets_tags_and_meta_witness:
  "fst (heartbeat example_env None (example_world
          [(''controlService:control:service:billing:instance:host1-4242-k3x9ab'',
            Str ''startedAt=T0;tags=old'' (Some 30))] [])) = Inr () \<and>
   (\<exists>body.
      store (snd (heartbeat example_env None (example_world
          [(''controlService:control:service:billing:instance:host1-4242-k3x9ab'',
            Str ''startedAt=T0;tags=old'' (Some 30))] []))) (instanceKey example_env) =
        Some (Str (example_stringify (JObj body)) (Some 30)) \<and>
      field body ''tags'' = Some (JArr [JStr ''eu'']) \<and>
      field body ''meta'' = Some (JObj []) \<and>
      field body ''startedAt'' = Some (JStr ''T0''))"
proof -
  let ?w = "example_world
          [(''controlService:control:service:billing:instance:host1-4242-k3x9ab'',
            Str ''startedAt=T0;tags=old'' (Some 30))] []"
  have f: "fst (heartbeat example_env None ?w) = Inr ()"
    by (simp add: heartbeat_def getState_def property_def parse_payload_def Let_def run_simps
        example_codec)
  then have r: "heartbeat example_env None ?w = (Inr (), snd (heartbeat example_env None ?w))"
    by (simp add: prod_eq_iff)
  have s: "string_at (store ?w) (instanceKey example_env) = Some ''startedAt=T0;tags=old''"
    by (simp add: example_keys example_world_def string_at_def)
  have p: "JSON_parse example_env ''startedAt=T0;tags=old'' =
      Some (JObj [(''startedAt'', JStr ''T0''), (''tags'', JArr [JStr ''old''])])"
    "field [(''startedAt'', JStr ''T0''), (''tags'', JArr [JStr ''old''])] ''startedAt'' =
      Some (JStr ''T0'')"
    "JSON_stringify example_env = example_stringify"
    "tags (options example_env) = Some [''eu'']" "meta (options example_env) = None"
    by (simp_all add: example_env_def example_parse_def field_def)
  from heartbeat_resets_tags_and_meta [OF r] obtain body where
    b: "store (snd (heartbeat example_env None ?w)) (instanceKey example_env) =
          Some (Str (JSON_stringify example_env (JObj body))
                  (Some (heartbeatTtl (finalConfig example_env))))"
      "field body ''tags'' =
         Some (JArr (map JStr (case tags (options example_env) of None \<Rightarrow> [] | Some ts \<Rightarrow> ts)))"
      "field body ''meta'' =
         Some (JObj (case meta (options example_env) of None \<Rightarrow> [] | Some m \<Rightarrow> m))"
      "\<forall>raw props v.
          string_at (store ?w) (instanceKey example_env) = Some raw \<and> raw \<noteq> [] \<and>
          JSON_parse example_env raw = Some (JObj props) \<and>
          field props ''startedAt'' = Some v \<and> v \<noteq> JNull \<longrightarrow>
          field body ''startedAt'' = Some v"
    by blast
  from b(4) s p(1,2) have "field body ''startedAt'' = Some (JStr ''T0'')"
    by blast
  with b(1,2,3) f p(3,4,5) show ?thesis
    by (intro conjI exI [of _ body]) (simp_all add: example_config)
qed


section \<open>Shutdown\<close>

lemma shutdown_steps_logs: "unchanged logs (shutdown_steps e reason)"
  unfolding shutdown_steps_def Let_def
  by (intro unchanged_await logs_unchanged logs_unchanged_coalesce_io)

lemma propagates_shutdown_steps: "propagates (shutdown_steps e reason)"
  unfolding shutdown_steps_def Let_def by (intro propagates_intros)

lemma propagates_getState: "propagates (getState e)"
  unfolding getState_def by (intro propagates_intros)

lemma propagates_register: "propagates (register e)"
  unfolding register_def by (intro propagates_intros)

lemma propagates_applySignal: "propagates (applySignal e)"
  unfolding applySignal_def Let_def by (intro propagates_intros)

lemma propagates_heartbeat: "propagates (heartbeat e statusOverride)"
  unfolding heartbeat_def Let_def by (intro propagates_intros propagates_getState)

text \<open>
  \<open>shutdown\<close> always returns; its world is that of its \<^verbatim>\<open>try\<close> block, with the
  error logged if the block failed and the completion logged in any case.
\<close>

lemma shutdown_result:
  "shutdown e reason w =
     (Inr (),
      (snd (shutdown_steps e reason w))
        \<lparr>logs := logs w @ (case fst (shutdown_steps e reason w) of
                            Inl err \<Rightarrow> [(Error, ''Error during shutdown'')] | Inr u \<Rightarrow> [])
                   @ [(Info, ''Shutdown complete'')]\<rparr>)"
proof (cases "shutdown_steps e reason w")
  case (Pair r w1)
  have "logs w1 = logs w"
    using shutdown_steps_logs [of e reason] Pair by (auto simp: unchanged_def dest: spec [of _ w])
  then show ?thesis
    using Pair by (cases r) (simp_all add: shutdown_parts try_finally_def try_catch_def logger_def)
qed

lemma shutdown_steps_ok:
  assumes "no_faults w"
    and "\<forall>ms. store w (instanceKey e) \<noteq> Some (Members ms)"
    and "payload = parse_payload e (string_at (store w) (instanceKey e))"
    and "payload \<noteq> JNull"
    and "\<forall>v ttl. store w (instancesSetKey e) \<noteq> Some (Str v ttl)"
  shows "fst (shutdown_steps e reason w) = Inr ()"
    and "store (snd (shutdown_steps e reason w)) (stateKey e) = Some (Str ''stopping'' None)"
    and "store (snd (shutdown_steps e reason w)) (instanceKey e) =
           Some (Str (JSON_stringify e (JObj (shutdown_body e payload
                   (coalesce (stored_startedAt payload) (JStr (dates w (reads w))))
                   (dates w (if nullish (stored_startedAt payload)
                             then Suc (reads w) else reads w))
                   reason))) (Some 10))"
    and "instanceId e \<notin> members_at (store (snd (shutdown_steps e reason w))) (instancesSetKey e)"
  using assms
  by (cases payload;
      simp add: shutdown_steps_def io_defs redis_calls no_faults_def fault_due_def no_faults_tl
        keys_neq Let_def property_def coalesce_io_def coalesce_def nullish_def
        stored_startedAt_def
      split: option.splits json.splits)+

text \<open>
  Claim C7. Let the descriptor key hold a descriptor text with some time to live (30,
  the default heartbeat time to live, in particular) that does not parse to \<^verbatim>\<open>null\<close>,
  let the instances key hold no string, and let no store call fail. Then
  \<open>shutdown\<close> with the reason "manual", or with no reason, returns having rewritten
  the descriptor key with the time to live 10, the status "stopping" and the stop reason
  "manual"; the state key holds "stopping"; and the instance id is not in the instances
  set.
\<close>

theorem shutdown_rewrites_descriptor:
  assumes "no_faults w"
    and "store w (instanceKey e) = Some (Str raw ttl)"
    and "JSON_parse e raw \<noteq> Some JNull"
    and "\<forall>v t. store w (instancesSetKey e) \<noteq> Some (Str v t)"
    and "reason = Some ''manual'' \<or> reason = None"
  shows "\<exists>body w'.
           shutdown e reason w = (Inr (), w') \<and>
           store w' (instanceKey e) = Some (Str (JSON_stringify e (JObj body)) (Some 10)) \<and>
           field body ''status'' = Some (JStr ''stopping'') \<and>
           field body ''stopReason'' = Some (JStr ''manual'') \<and>
           store w' (stateKey e) = Some (Str ''stopping'' None) \<and>
           instanceId e \<notin> members_at (store w') (instancesSetKey e)"
proof -
  define payload where "payload = parse_payload e (string_at (store w) (instanceKey e))"
  have p: "payload \<noteq> JNull"
    using assms(2,3) by (auto simp: payload_def parse_payload_def string_at_def split: option.splits)
  have m: "\<forall>ms. store w (instanceKey e) \<noteq> Some (Members ms)"
    using assms(2) by simp
  note ok = shutdown_steps_ok [OF assms(1) m payload_def p assms(4), of reason]
  let ?body = "shutdown_body e payload
                 (coalesce (stored_startedAt payload) (JStr (dates w (reads w))))
                 (dates w (if nullish (stored_startedAt payload) then Suc (reads w) else reads w))
                 reason"
  let ?w' = "snd (shutdown e reason w)"
  have "shutdown e reason w = (Inr (), ?w')"
    by (simp add: shutdown_result)
  moreover have "store ?w' = store (snd (shutdown_steps e reason w))"
    by (simp add: shutdown_result)
  moreover have "field ?body ''status'' = Some (JStr ''stopping'')"
    by (simp add: field_shutdown_body)
  moreover have "field ?body ''stopReason'' = Some (JStr ''manual'')"
    using assms(5) by (auto simp: field_shutdown_body)
  ultimately show ?thesis
    using ok by (intro exI [of _ ?body] exI [of _ ?w']) simp
qed

text \<open>
  The sample controller, registered with the heartbeat time to live 30 beside another
  instance, shuts down for the reason "manual".
\<close>

theorem shutdown_rewrites_descriptor_witness:
  "\<exists>body w'.
     shutdown example_env (Some ''manual'') (example_world
       [(''controlService:control:state:billing'', Str ''running'' None),
        (''controlService:control:service:billing:instance:host1-4242-k3x9ab'',
         Str ''startedAt=T0;tags=old'' (Some 30)),
        (''controlService:control:service:billing:instances'',
         Members {''host1-4242-k3x9ab'', ''host2-17-zzzzzz''})] []) = (Inr (), w') \<and>
     store w' (instanceKey example_env) = Some (Str (example_stringify (JObj body)) (Some 10)) \<and>
     field body ''status'' = Some (JStr ''stopping'') \<and>
     field body ''stopReason'' = Some (JStr ''manual'') \<and>
     store w' (stateKey example_env) = Some (Str ''stopping'' None) \<and>
     ''host1-4242-k3x9ab'' \<notin> members_at (store w') (instancesSetKey example_env)"
proof -
  let ?w = "example_world
       [(''controlService:control:state:billing'', Str ''running'' None),
        (''controlService:control:service:billing:instance:host1-4242-k3x9ab'',
         Str ''startedAt=T0;tags=old'' (Some 30)),
        (''controlService:control:service:billing:instances'',
         Members {''host1-4242-k3x9ab'', ''host2-17-zzzzzz''})] []"
  have 1: "no_faults ?w"
    by (simp add: no_faults_def example_world_def)
  have 2: "store ?w (instanceKey example_env) = Some (Str ''startedAt=T0;tags=old'' (Some 30))"
    by (simp add: example_keys example_world_def)
  have 3: "JSON_parse example_env ''startedAt=T0;tags=old'' \<noteq> Some JNull"
    by (simp add: example_codec)
  have 4: "\<forall>v t. store ?w (instancesSetKey example_env) \<noteq> Some (Str v t)"
    by (simp add: example_keys example_world_def)
  show ?thesis
    using shutdown_rewrites_descriptor [OF 1 2 3 4, of "Some ''manual''"]
    by (simp add: example_codec example_keys)
qed

text \<open>
  Claim C8. \<open>shutdown\<close> returns normally in every world, and the last thing it logs is
  its completion; when a store call has failed during it, the error was logged just
  before. In \<open>register\<close>, \<open>heartbeat\<close> and \<open>applySignal\<close>, when a store call has
  failed during the operation, the operation has failed with the failure of the store.
\<close>

theorem shutdown_swallows_store_failures:
  "fst (shutdown e reason w) = Inr () \<and>
   last (logs (snd (shutdown e reason w))) = (Info, ''Shutdown complete'') \<and>
   (rejected (snd (shutdown e reason w)) \<noteq> rejected w \<longrightarrow>
      logs (snd (shutdown e reason w)) =
        logs w @ [(Error, ''Error during shutdown''), (Info, ''Shutdown complete'')]) \<and>
   (rejected (snd (register e w)) \<noteq> rejected w \<longrightarrow>
      fst (register e w) = Inl StoreError \<or> fst (register e w) = Inl ReplyError) \<and>
   (rejected (snd (heartbeat e statusOverride w)) \<noteq> rejected w \<longrightarrow>
      fst (heartbeat e statusOverride w) = Inl StoreError \<or>
      fst (heartbeat e statusOverride w) = Inl ReplyError) \<and>
   (rejected (snd (applySignal e w)) \<noteq> rejected w \<longrightarrow>
      fst (applySignal e w) = Inl StoreError \<or> fst (applySignal e w) = Inl ReplyError)"
proof -
  have s: "rejected (snd (shutdown_steps e reason w)) \<noteq> rejected w \<longrightarrow>
      fst (shutdown_steps e reason w) = Inl StoreError \<or>
      fst (shutdown_steps e reason w) = Inl ReplyError"
    using propagates_shutdown_steps [of e reason] by (simp add: propagates_def)
  have "fst (shutdown e reason w) = Inr ()"
    "last (logs (snd (shutdown e reason w))) = (Info, ''Shutdown complete'')"
    "rejected (snd (shutdown e reason w)) \<noteq> rejected w \<longrightarrow>
      logs (snd (shutdown e reason w)) =
        logs w @ [(Error, ''Error during shutdown''), (Info, ''Shutdown complete'')]"
    using s by (auto simp: shutdown_result)
  moreover have "rejected (snd (register e w)) \<noteq> rejected w \<longrightarrow>
      fst (register e w) = Inl StoreError \<or> fst (register e w) = Inl ReplyError"
    using propagates_register [of e] by (simp add: propagates_def)
  moreover have "rejected (snd (heartbeat e statusOverride w)) \<noteq> rejected w \<longrightarrow>
      fst (heartbeat e statusOverride w) = Inl StoreError \<or>
      fst (heartbeat e statusOverride w) = Inl ReplyError"
    using propagates_heartbeat [of e statusOverride] by (simp add: propagates_def)
  moreover have "rejected (snd (applySignal e w)) \<noteq> rejected w \<longrightarrow>
      fst (applySignal e w) = Inl StoreError \<or> fst (applySignal e w) = Inl ReplyError"
    using propagates_applySignal [of e] by (simp add: propagates_def)
  ultimately show ?thesis by blast
qed

text \<open>
  The sample controller with a store whose first call fails: \<open>shutdown\<close> returns and
  logs the error, then its completion; \<open>register\<close>, \<open>heartbeat\<close> and \<open>applySignal\<close>
  fail with the error of the store.
\<close>

theorem shutdown_swallows_store_failures_witness:
  "rejected (snd (shutdown example_env None (example_world [] [True]))) = 1 \<and>
   fst (shutdown example_env None (example_world [] [True])) = Inr () \<and>
   logs (snd (shutdown example_env None (example_world [] [True]))) =
     [(Error, ''Error during shutdown''), (Info, ''Shutdown complete'')] \<and>
   fst (register example_env (example_world [] [True])) = Inl StoreError \<and>
   fst (heartbeat example_env None (example_world [] [True])) = Inl StoreError \<and>
   fst (applySignal example_env (example_world [] [True])) = Inl StoreError"
proof -
  let ?w = "example_world [] [True]"
  have r: "rejected ?w = 0" "logs ?w = []"
    "rejected (snd (shutdown example_env None ?w)) = 1"
    "rejected (snd (register example_env ?w)) = 1"
    "rejected (snd (heartbeat example_env None ?w)) = 1"
    "rejected (snd (applySignal example_env ?w)) = 1"
    by (simp_all add: shutdown_def register_def heartbeat_def applySignal_def try_finally_def
        try_catch_def run_simps)
  have f: "fst (register example_env ?w) \<noteq> Inl ReplyError"
    "fst (heartbeat example_env None ?w) \<noteq> Inl ReplyError"
    "fst (applySignal example_env ?w) \<noteq> Inl ReplyError"
    by (simp_all add: register_def heartbeat_def applySignal_def run_simps)
  show ?thesis
    using shutdown_swallows_store_failures [of example_env None ?w None] r f
    by simp
qed


end
